theory Spec2Isabelle
  imports Complex_Main "HOL-Library.Sublist"
begin

section \<open>JavaScript values used by \<open>src/index.ts\<close>\<close>

text \<open>
  Strings are byte strings: a character of the source beyond ASCII is written as the
  bytes of its UTF-8 encoding, as it stands in the source file. The program never
  indexes into or measures a string with such a character.
\<close>

definition degree_sign :: string where
  "degree_sign = [CHR 0xC2, CHR 0xB0]"

definition em_dash :: string where
  "em_dash = [CHR 0xE2, CHR 0x80, CHR 0x94]"

definition sun_emoji :: string where
  "sun_emoji = [CHR 0xE2, CHR 0x98, CHR 0x80, CHR 0xEF, CHR 0xB8, CHR 0x8F]"

definition new_moon_emoji :: string where
  "new_moon_emoji = [CHR 0xF0, CHR 0x9F, CHR 0x8C, CHR 0x91]"

text \<open>
  A thrown value: an instance of \<open>Error\<close> (of any subclass) with its message, or
  something else. The wrappers of the program only test \<open>instanceof Error\<close> and read
  \<open>message\<close>.
\<close>

datatype thrown = ErrorObj string | NonError

text \<open>The errors that the engine itself raises, with the messages of Node.js: reading the
  property \<open>prop\<close> of \<open>undefined\<close> or of \<open>null\<close>, calling \<open>data.prop.toFixed\<close> when it
  is not a function, and printing an invalid date.\<close>

definition TypeError_cannot_read :: "string \<Rightarrow> string \<Rightarrow> thrown" where
  "TypeError_cannot_read what prop =
     ErrorObj (''Cannot read properties of '' @ what @ '' (reading '' @ [CHR 0x27] @ prop
               @ [CHR 0x27] @ '')'')"

definition TypeError_not_a_function :: "string \<Rightarrow> thrown" where
  "TypeError_not_a_function prop = ErrorObj (''data.'' @ prop @ ''.toFixed is not a function'')"

definition RangeError_invalid_time :: thrown where
  "RangeError_invalid_time = ErrorObj ''Invalid time value''"

text \<open>Sequencing of statements that may throw: the first thrown value ends the block.\<close>

definition and_then :: "thrown + 'a \<Rightarrow> ('a \<Rightarrow> thrown + 'b) \<Rightarrow> thrown + 'b" where
  "and_then r f = (case r of Inl e \<Rightarrow> Inl e | Inr x \<Rightarrow> f x)"

text \<open>
  A Number is its exact mathematical value (every finite double is a rational), or one of
  the three special values. Negative zero prints like zero in \<open>toFixed\<close> and is not
  kept apart.
\<close>

datatype number = Finite rat | NaN | PosInfinity | NegInfinity

datatype jsvalue =
    JUndefined
  | JNull
  | JBool bool
  | JNum number
  | JStr string
  | JArr "jsvalue list"
  | JObj "(string \<times> jsvalue) list"
  | JInherited string

text \<open>\<open>JInherited k\<close> is the value that every object inherits under the name \<open>k\<close> from
  \<open>Object.prototype\<close>: a function, or the prototype itself for \<open>__proto__\<close>; it is not a
  string and not \<open>null\<close> or \<open>undefined\<close>.\<close>

definition Object_prototype_keys :: "string list" where
  "Object_prototype_keys =
     [''constructor'', ''__defineGetter__'', ''__defineSetter__'', ''hasOwnProperty'',
      ''__lookupGetter__'', ''__lookupSetter__'', ''isPrototypeOf'', ''propertyIsEnumerable'',
      ''toString'', ''valueOf'', ''__proto__'', ''toLocaleString'']"

text \<open>
  The host: the local time zone adjustment \<open>LocalTZA t isUTC\<close> of ECMAScript in
  milliseconds (the offset in force at the UTC instant \<open>t\<close> when \<open>isUTC\<close>, at the
  local time \<open>t\<close> otherwise), and \<open>Number::toString\<close>, which \<open>toFixed\<close> calls for
  magnitudes from \<open>10^21\<close> on (exponent notation).
\<close>

record host =
  LocalTZA :: "int \<Rightarrow> bool \<Rightarrow> int"
  NumberToString :: "rat \<Rightarrow> string"

subsection \<open>Decimal digits\<close>

definition digit_char :: "nat \<Rightarrow> char" where
  "digit_char n = ''0123456789'' ! (n mod 10)"

text \<open>\<open>digits w n\<close>: the last \<open>w\<close> decimal digits of \<open>n\<close>, zero padded.\<close>

fun digits :: "nat \<Rightarrow> nat \<Rightarrow> string" where
  "digits 0 n = []"
| "digits (Suc w) n = digits w (n div 10) @ [digit_char n]"

text \<open>The decimal numeral of \<open>n\<close> without leading zeros (\<open>0\<close> for zero).\<close>

fun dec :: "nat \<Rightarrow> string" where
  "dec n = (if n < 10 then [digit_char n] else dec (n div 10) @ [digit_char n])"

declare dec.simps [simp del]

subsection \<open>String methods\<close>

text \<open>\<open>s.replace(pat, rep)\<close> with a string pattern: the first occurrence only.
  The replacement strings of the program contain no \<open>$\<close>.\<close>

fun String_replace :: "string \<Rightarrow> string \<Rightarrow> string \<Rightarrow> string" where
  "String_replace pat rep [] = (if pat = [] then rep else [])"
| "String_replace pat rep (x # xs) =
     (if prefix pat (x # xs) then rep @ drop (length pat) (x # xs)
      else x # String_replace pat rep xs)"

text \<open>\<open>s.split(c)\<close> for a separator of one character.\<close>

fun String_split :: "char \<Rightarrow> string \<Rightarrow> string list" where
  "String_split c [] = [[]]"
| "String_split c (x # xs) =
     (if x = c then [] # String_split c xs
      else (case String_split c xs of
              [] \<Rightarrow> [[x]]
            | w # ws \<Rightarrow> (x # w) # ws))"

section \<open>Dates (ECMAScript, Date objects)\<close>

text \<open>A time value is a number of milliseconds since 1970-01-01T00:00:00Z; \<open>None\<close> is
  the invalid date (NaN).\<close>

definition msPerDay :: int where "msPerDay = 86400000"
definition msPerHour :: int where "msPerHour = 3600000"
definition msPerMinute :: int where "msPerMinute = 60000"
definition msPerSecond :: int where "msPerSecond = 1000"

definition Day :: "int \<Rightarrow> int" where
  "Day t = t div msPerDay"

definition TimeWithinDay :: "int \<Rightarrow> int" where
  "TimeWithinDay t = t mod msPerDay"

definition DaysInYear :: "int \<Rightarrow> int" where
  "DaysInYear y =
     (if y mod 4 \<noteq> 0 then 365 else if y mod 100 \<noteq> 0 then 366
      else if y mod 400 \<noteq> 0 then 365 else 366)"

definition leap_year :: "int \<Rightarrow> bool" where
  "leap_year y \<longleftrightarrow> DaysInYear y = 366"

definition DayFromYear :: "int \<Rightarrow> int" where
  "DayFromYear y =
     365 * (y - 1970) + (y - 1969) div 4 - (y - 1901) div 100 + (y - 1601) div 400"

lemma div_step:
  fixes a k :: int
  assumes "0 < k"
  shows "(a + 1) div k = a div k + (if (a + 1) mod k = 0 then 1 else 0)"
proof -
  define q r where "q = a div k" and "r = a mod k"
  have a: "a = k * q + r" and r0: "0 \<le> r" and rk: "r < k"
    using assms by (simp_all add: q_def r_def)
  show ?thesis
  proof (cases "r + 1 = k")
    case True
    then have e: "a + 1 = k * (q + 1)" using a by (simp add: algebra_simps)
    have "(a + 1) div k = q + 1" "(a + 1) mod k = 0"
      using assms unfolding e by simp_all
    then show ?thesis by (simp add: q_def)
  next
    case False
    then have lt: "r + 1 < k" using rk by simp
    have e: "a + 1 = k * q + (r + 1)" using a by simp
    have d: "(a + 1) div k = q"
      unfolding e using lt r0 assms by simp
    have m: "(a + 1) mod k = r + 1"
      unfolding e using lt r0 assms by simp
    show ?thesis using d m r0 by (simp add: q_def)
  qed
qed

lemma mod_shift: "((y::int) - k * c) mod k = y mod k"
proof -
  have "(y - k * c) mod k = (y + k * (- c)) mod k" by simp
  also have "\<dots> = y mod k" by (rule mod_mult_self2)
  finally show ?thesis .
qed

lemma DayFromYear_Suc: "DayFromYear (y + 1) = DayFromYear y + DaysInYear y"
proof -
  have m4: "(y - 1968) mod 4 = y mod 4" using mod_shift [of y 4 492] by simp
  have m100: "(y - 1900) mod 100 = y mod 100" using mod_shift [of y 100 19] by simp
  have m400: "(y - 1600) mod 400 = y mod 400" using mod_shift [of y 400 4] by simp
  have i1: "y mod 400 = 0 \<Longrightarrow> y mod 100 = 0"
  proof -
    assume "y mod 400 = 0"
    then have "400 dvd y" by (simp add: mod_eq_0_iff_dvd)
    moreover have "(100::int) dvd 400" by simp
    ultimately have "100 dvd y" by (rule dvd_trans [rotated])
    then show ?thesis by (simp add: mod_eq_0_iff_dvd)
  qed
  have i2: "y mod 100 = 0 \<Longrightarrow> y mod 4 = 0"
  proof -
    assume "y mod 100 = 0"
    then have "100 dvd y" by (simp add: mod_eq_0_iff_dvd)
    moreover have "(4::int) dvd 100" by simp
    ultimately have "4 dvd y" by (rule dvd_trans [rotated])
    then show ?thesis by (simp add: mod_eq_0_iff_dvd)
  qed
  have a: "(y + 1 - 1969) div 4 = (y - 1969) div 4 + (if y mod 4 = 0 then 1 else 0)"
    using div_step [of 4 "y - 1969"] m4 by (simp add: algebra_simps)
  have b: "(y + 1 - 1901) div 100 = (y - 1901) div 100 + (if y mod 100 = 0 then 1 else 0)"
    using div_step [of 100 "y - 1901"] m100 by (simp add: algebra_simps)
  have c: "(y + 1 - 1601) div 400 = (y - 1601) div 400 + (if y mod 400 = 0 then 1 else 0)"
    using div_step [of 400 "y - 1601"] m400 by (simp add: algebra_simps)
  show ?thesis
  proof (cases "y mod 4 = 0")
    case False
    then have "y mod 100 \<noteq> 0" "y mod 400 \<noteq> 0" using i1 i2 by auto
    with False show ?thesis
      unfolding DayFromYear_def DaysInYear_def a b c by simp
  next
    case t4: True
    show ?thesis
    proof (cases "y mod 100 = 0")
      case False
      then have "y mod 400 \<noteq> 0" using i1 by auto
      with False t4 show ?thesis
        unfolding DayFromYear_def DaysInYear_def a b c by simp
    next
      case t100: True
      show ?thesis
        unfolding DayFromYear_def DaysInYear_def a b c
        using t4 t100 by (cases "y mod 400 = 0") simp_all
    qed
  qed
qed
text \<open>
  \<open>YearFromTime t\<close> is the largest year \<open>y\<close> with \<open>DayFromYear y \<le> Day t\<close>. It is
  found by counting up from a year that is not after it.
\<close>

function year_upto :: "int \<Rightarrow> int \<Rightarrow> int" where
  "year_upto d y = (if DayFromYear (y + 1) \<le> d then year_upto d (y + 1) else y)"
  by pat_completeness auto
termination
proof (relation "measure (\<lambda>(d, y). nat (d - DayFromYear y))")
  show "wf (measure (\<lambda>(d, y). nat (d - DayFromYear y)))" by simp
next
  fix d y :: int
  assume "DayFromYear (y + 1) \<le> d"
  moreover have "DayFromYear y < DayFromYear (y + 1)"
    by (simp add: DayFromYear_Suc DaysInYear_def)
  ultimately show "((d, y + 1), (d, y)) \<in> measure (\<lambda>(d, y). nat (d - DayFromYear y))"
    by simp
qed

declare year_upto.simps [simp del]

definition YearFromDay :: "int \<Rightarrow> int" where
  "YearFromDay d = year_upto d (1970 + (if 0 \<le> d then d div 366 else d div 365))"

definition YearFromTime :: "int \<Rightarrow> int" where
  "YearFromTime t = YearFromDay (Day t)"

definition DayWithinYear :: "int \<Rightarrow> int" where
  "DayWithinYear t = Day t - DayFromYear (YearFromTime t)"

definition InLeapYear :: "int \<Rightarrow> int" where
  "InLeapYear t = (if leap_year (YearFromTime t) then 1 else 0)"

text \<open>The day within the year on which month \<open>m\<close> (0 to 11) begins; \<open>l\<close> is 1 in a
  leap year, else 0.\<close>

definition month_start :: "int \<Rightarrow> int \<Rightarrow> int" where
  "month_start l m =
     (if m = 0 then 0 else if m = 1 then 31 else if m = 2 then 59 + l
      else if m = 3 then 90 + l else if m = 4 then 120 + l else if m = 5 then 151 + l
      else if m = 6 then 181 + l else if m = 7 then 212 + l else if m = 8 then 243 + l
      else if m = 9 then 273 + l else if m = 10 then 304 + l else 334 + l)"

definition month_of_yday :: "int \<Rightarrow> int \<Rightarrow> int" where
  "month_of_yday l d =
     (if d < 31 then 0 else if d < 59 + l then 1 else if d < 90 + l then 2
      else if d < 120 + l then 3 else if d < 151 + l then 4 else if d < 181 + l then 5
      else if d < 212 + l then 6 else if d < 243 + l then 7 else if d < 273 + l then 8
      else if d < 304 + l then 9 else if d < 334 + l then 10 else 11)"

definition MonthFromTime :: "int \<Rightarrow> int" where
  "MonthFromTime t = month_of_yday (InLeapYear t) (DayWithinYear t)"

definition DateFromTime :: "int \<Rightarrow> int" where
  "DateFromTime t =
     DayWithinYear t - month_start (InLeapYear t) (MonthFromTime t) + 1"

definition WeekDay :: "int \<Rightarrow> int" where
  "WeekDay t = (Day t + 4) mod 7"

definition HourFromTime :: "int \<Rightarrow> int" where
  "HourFromTime t = (t div msPerHour) mod 24"

definition MinFromTime :: "int \<Rightarrow> int" where
  "MinFromTime t = (t div msPerMinute) mod 60"

definition SecFromTime :: "int \<Rightarrow> int" where
  "SecFromTime t = (t div msPerSecond) mod 60"

definition msFromTime :: "int \<Rightarrow> int" where
  "msFromTime t = t mod msPerSecond"

definition MakeDay :: "int \<Rightarrow> int \<Rightarrow> int \<Rightarrow> int" where
  "MakeDay year month date =
     (let ym = year + month div 12; mn = month mod 12
      in DayFromYear ym + month_start (if leap_year ym then 1 else 0) mn + date - 1)"

definition MakeDate :: "int \<Rightarrow> int \<Rightarrow> int" where
  "MakeDate day time = day * msPerDay + time"

definition TimeClip :: "int \<Rightarrow> int option" where
  "TimeClip t = (if \<bar>t\<bar> > 8640000000000000 then None else Some t)"

definition LocalTime :: "host \<Rightarrow> int \<Rightarrow> int" where
  "LocalTime h t = t + LocalTZA h t True"

definition UTC :: "host \<Rightarrow> int \<Rightarrow> int" where
  "UTC h t = t - LocalTZA h t False"

text \<open>\<open>d.getDate()\<close> and \<open>d.setDate(n)\<close> work on the local time of the host.\<close>

definition getDate :: "host \<Rightarrow> int \<Rightarrow> int" where
  "getDate h t = DateFromTime (LocalTime h t)"

definition setDate :: "host \<Rightarrow> int \<Rightarrow> int \<Rightarrow> int option" where
  "setDate h t dt =
     (let lt = LocalTime h t;
          newDate = MakeDate (MakeDay (YearFromTime lt) (MonthFromTime lt) dt)
                             (TimeWithinDay lt)
      in TimeClip (UTC h newDate))"

text \<open>\<open>d.toISOString()\<close>: UTC fields; a year outside 0 to 9999 is written with a sign and
  six digits; an invalid date raises a RangeError.\<close>

definition iso_year :: "int \<Rightarrow> string" where
  "iso_year y =
     (if 0 \<le> y \<and> y \<le> 9999 then digits 4 (nat y)
      else (if y < 0 then ''-'' else ''+'') @ digits 6 (nat \<bar>y\<bar>))"

definition iso_date :: "int \<Rightarrow> string" where
  "iso_date t =
     iso_year (YearFromTime t) @ ''-'' @ digits 2 (nat (MonthFromTime t + 1)) @ ''-''
       @ digits 2 (nat (DateFromTime t))"

definition iso_time :: "int \<Rightarrow> string" where
  "iso_time t =
     digits 2 (nat (HourFromTime t)) @ '':'' @ digits 2 (nat (MinFromTime t)) @ '':''
       @ digits 2 (nat (SecFromTime t)) @ ''.'' @ digits 3 (nat (msFromTime t))"

definition toISOString :: "int option \<Rightarrow> thrown + string" where
  "toISOString tv =
     (case tv of
        None \<Rightarrow> Inl RangeError_invalid_time
      | Some t \<Rightarrow> Inr (iso_date t @ ''T'' @ iso_time t @ ''Z''))"

section \<open>The imagery URL\<close>

definition MAP_URL_prefix :: string where
  "MAP_URL_prefix = ''https://gibs.earthdata.nasa.gov/wms/epsg4326/best/wms.cgi?SERVICE=WMS&REQUEST=GetMap&VERSION=1.3.0&LAYERS=MODIS_Terra_CorrectedReflectance_TrueColor&CRS=EPSG:4326&STYLES=&FORMAT=image/jpeg&TIME=''"

definition MAP_URL_suffix :: string where
  "MAP_URL_suffix = ''&BBOX=-180,-90,180,90&WIDTH=4096&HEIGHT=2048''"

text \<open>\<open>getMapUrl\<close>, with the reading of the clock (\<open>new Date()\<close>) as the argument
  \<open>now\<close>. The element 0 of the split is its first piece.\<close>

definition getMapUrl_date :: "host \<Rightarrow> int \<Rightarrow> thrown + string" where
  "getMapUrl_date h now =
     (let yesterday = setDate h now (getDate h now - 1)
      in case toISOString yesterday of
           Inl e \<Rightarrow> Inl e
         | Inr str \<Rightarrow>
             (case String_split CHR ''T'' str of
                [] \<Rightarrow> Inr ''undefined''
              | date # _ \<Rightarrow> Inr date))"

definition getMapUrl :: "host \<Rightarrow> int \<Rightarrow> thrown + string" where
  "getMapUrl h now =
     (case getMapUrl_date h now of
        Inl e \<Rightarrow> Inl e
      | Inr date \<Rightarrow> Inr (MAP_URL_prefix @ date @ MAP_URL_suffix))"


section \<open>Number formatting\<close>

text \<open>
  \<open>x.toFixed(f)\<close>: for a finite \<open>x\<close> below \<open>10^21\<close> in magnitude, the digits of the
  integer \<open>n\<close> for which \<open>n / 10^f\<close> is nearest to \<open>\<bar>x\<bar>\<close> (the larger \<open>n\<close> on a tie), with
  a point before the last \<open>f\<close> digits and the sign in front.
\<close>

definition toFixed :: "host \<Rightarrow> number \<Rightarrow> nat \<Rightarrow> string" where
  "toFixed h x f =
     (case x of
        NaN \<Rightarrow> ''NaN''
      | PosInfinity \<Rightarrow> ''Infinity''
      | NegInfinity \<Rightarrow> ''-Infinity''
      | Finite r \<Rightarrow>
          (let s = (if r < 0 then ''-'' else []); a = \<bar>r\<bar>
           in if 10 ^ 21 \<le> a then s @ NumberToString h a
              else
                (let n = nat \<lfloor>a * 10 ^ f + 1 / 2\<rfloor>;
                     m = (if n = 0 then ''0'' else dec n)
                 in if f = 0 then s @ m
                    else
                      (let m' = (if length m \<le> f
                                 then replicate (f + 1 - length m) CHR ''0'' @ m else m);
                           k = length m'
                       in s @ take (k - f) m' @ ''.'' @ drop (k - f) m'))))"

text \<open>Reading a property of a value, and calling \<open>toFixed\<close> on the value of the property
  \<open>prop\<close> of \<open>data\<close>. The program reads five properties of \<open>data\<close>, by names that no
  value inherits, so that \<open>get_prop\<close> looks at own properties only.\<close>

definition get_prop :: "jsvalue \<Rightarrow> string \<Rightarrow> thrown + jsvalue" where
  "get_prop v name =
     (case v of
        JUndefined \<Rightarrow> Inl (TypeError_cannot_read ''undefined'' name)
      | JNull \<Rightarrow> Inl (TypeError_cannot_read ''null'' name)
      | JObj ps \<Rightarrow> Inr (case map_of ps name of None \<Rightarrow> JUndefined | Some x \<Rightarrow> x)
      | _ \<Rightarrow> Inr JUndefined)"

definition call_toFixed :: "host \<Rightarrow> string \<Rightarrow> jsvalue \<Rightarrow> nat \<Rightarrow> thrown + string" where
  "call_toFixed h prop v f =
     (case v of
        JNum x \<Rightarrow> Inr (toFixed h x f)
      | JUndefined \<Rightarrow> Inl (TypeError_cannot_read ''undefined'' ''toFixed'')
      | JNull \<Rightarrow> Inl (TypeError_cannot_read ''null'' ''toFixed'')
      | _ \<Rightarrow> Inl (TypeError_not_a_function prop))"

section \<open>Reading a query parameter of a URL\<close>

text \<open>
  \<open>new URL(s).searchParams.get(name)\<close>, for the part of the URL standard that the URL
  of this program exercises: an absolute URL needs a scheme (a letter, then letters,
  digits, \<open>+\<close>, \<open>-\<close> or \<open>.\<close>, then a colon), else the constructor throws; the query runs from
  the first \<open>?\<close> to the fragment; its pairs are separated by \<open>&\<close>, a name ends at the
  first \<open>=\<close>, and in names and values \<open>+\<close> stands for a space and \<open>%XX\<close> for a byte.
\<close>

definition is_alpha :: "char \<Rightarrow> bool" where
  "is_alpha c \<longleftrightarrow> (let n = of_char c :: nat in (65 \<le> n \<and> n \<le> 90) \<or> (97 \<le> n \<and> n \<le> 122))"

definition is_digit :: "char \<Rightarrow> bool" where
  "is_digit c \<longleftrightarrow> (let n = of_char c :: nat in 48 \<le> n \<and> n \<le> 57)"

definition is_scheme_char :: "char \<Rightarrow> bool" where
  "is_scheme_char c \<longleftrightarrow> is_alpha c \<or> is_digit c \<or> c = CHR ''+'' \<or> c = CHR ''-'' \<or> c = CHR ''.''"

definition has_scheme :: "string \<Rightarrow> bool" where
  "has_scheme s =
     (case takeWhile (\<lambda>c. c \<noteq> CHR '':'') s of
        [] \<Rightarrow> False
      | c # cs \<Rightarrow> is_alpha c \<and> list_all is_scheme_char cs
                 \<and> dropWhile (\<lambda>c. c \<noteq> CHR '':'') s \<noteq> [])"

definition URL_query :: "string \<Rightarrow> string option" where
  "URL_query s =
     (if has_scheme s
      then Some (case dropWhile (\<lambda>c. c \<noteq> CHR ''?'') (takeWhile (\<lambda>c. c \<noteq> CHR ''#'') s) of
                   [] \<Rightarrow> []
                 | _ # q \<Rightarrow> q)
      else None)"

definition hex_value :: "char \<Rightarrow> nat option" where
  "hex_value c =
     (let n = of_char c :: nat
      in if 48 \<le> n \<and> n \<le> 57 then Some (n - 48)
         else if 65 \<le> n \<and> n \<le> 70 then Some (n - 55)
         else if 97 \<le> n \<and> n \<le> 102 then Some (n - 87)
         else None)"

fun percent_decode :: "string \<Rightarrow> string" where
  "percent_decode (c # h1 # h2 # rest) =
     (case (c = CHR ''%'', hex_value h1, hex_value h2) of
        (True, Some a, Some b) \<Rightarrow> char_of (16 * a + b) # percent_decode rest
      | _ \<Rightarrow> c # percent_decode (h1 # h2 # rest))"
| "percent_decode s = s"

definition form_decode :: "string \<Rightarrow> string" where
  "form_decode s = percent_decode (map (\<lambda>c. if c = CHR ''+'' then CHR '' '' else c) s)"

definition query_pairs :: "string \<Rightarrow> (string \<times> string) list" where
  "query_pairs q =
     map (\<lambda>p. (form_decode (takeWhile (\<lambda>c. c \<noteq> CHR ''='') p),
                form_decode (drop 1 (dropWhile (\<lambda>c. c \<noteq> CHR ''='') p))))
         (filter (\<lambda>p. p \<noteq> []) (String_split CHR ''&'' q))"

text \<open>The outer \<open>None\<close>: the constructor throws. The inner \<open>None\<close>: \<open>get\<close> returns null.\<close>

definition URL_searchParams_get :: "string \<Rightarrow> string \<Rightarrow> string option option" where
  "URL_searchParams_get s name =
     (case URL_query s of
        None \<Rightarrow> None
      | Some q \<Rightarrow> Some (map_of (query_pairs q) name))"

section \<open>The message\<close>

text \<open>\<open>new Date()\<close> holds the reading of the clock; a Date object cannot hold a time value
  out of range.\<close>

definition new_Date :: "int \<Rightarrow> int option" where
  "new_Date clock = TimeClip clock"

text \<open>\<open>new Intl.DateTimeFormat('en-US', { weekday: 'long' }).format(d)\<close>: the name of the
  weekday of \<open>d\<close> in the time zone of the host.\<close>

definition weekday_name :: "int \<Rightarrow> string" where
  "weekday_name n =
     (if n = 0 then ''Sunday'' else if n = 1 then ''Monday'' else if n = 2 then ''Tuesday''
      else if n = 3 then ''Wednesday'' else if n = 4 then ''Thursday''
      else if n = 5 then ''Friday'' else ''Saturday'')"

definition format_weekday :: "host \<Rightarrow> int option \<Rightarrow> thrown + string" where
  "format_weekday h tv =
     (case tv of
        None \<Rightarrow> Inl RangeError_invalid_time
      | Some t \<Rightarrow> Inr (weekday_name (WeekDay (LocalTime h t))))"

definition sunlight_phrase :: string where
  "sunlight_phrase = ''bathed in sunlight '' @ sun_emoji"

definition shadow_phrase :: string where
  "shadow_phrase = ''passing through Earth'' @ [CHR 0x27] @ ''s shadow '' @ new_moon_emoji"

text \<open>The object \<open>messages\<close>, entry by entry as in the source.\<close>

definition messages :: "string \<Rightarrow> string \<Rightarrow> string \<Rightarrow> (string \<times> string) list" where
  "messages utc baseInfo imageNote =
     [(''Sunday'',
       ''Hi from the ISS '' @ em_dash @ '' '' @ utc @ ''. '' @ baseInfo
         @ '' Taking a breather and enjoying the view. '' @ imageNote
         @ '' (ISS = International Space Station) #ISS #Space #NASA''),
      (''Monday'',
       ''Hi from the ISS '' @ em_dash @ '' '' @ utc @ ''. '' @ baseInfo
         @ '' Kicked off the week with a research run. Here'' @ [CHR 0x27]
         @ ''s the scene below. '' @ imageNote
         @ '' (ISS = International Space Station) #ISS #Space #NASA''),
      (''Tuesday'',
       ''Hi from the ISS '' @ em_dash @ '' '' @ utc @ ''. '' @ baseInfo
         @ '' Running experiments and watching the sunrise sweep across continents. ''
         @ imageNote @ '' (ISS = International Space Station) #ISS #Space #NASA''),
      (''Wednesday'',
       ''Hi from the ISS '' @ em_dash @ '' '' @ utc @ ''. '' @ baseInfo
         @ '' Midweek check-in from orbit '' @ em_dash
         @ '' science, maintenance, and sweeping views. '' @ imageNote
         @ '' (ISS = International Space Station) #ISS #Space #NASA''),
      (''Thursday'',
       ''Hi from the ISS '' @ em_dash @ '' '' @ utc @ ''. '' @ baseInfo
         @ '' Preparing gear and sharing this snapshot from above. '' @ imageNote
         @ '' (ISS = International Space Station) #ISS #Space #NASA''),
      (''Friday'',
       ''Hi from the ISS '' @ em_dash @ '' '' @ utc @ ''. '' @ baseInfo
         @ '' Wrapping up a busy week onboard '' @ em_dash @ '' enjoy this view. ''
         @ imageNote @ '' (ISS = International Space Station) #ISS #Space #NASA''),
      (''Saturday'',
       ''Hi from the ISS '' @ em_dash @ '' '' @ utc @ ''. '' @ baseInfo
         @ '' Weekend vibes above Earth '' @ em_dash
         @ '' peaceful and busy all at once. '' @ imageNote
         @ '' (ISS = International Space Station) #ISS #Space #NASA'')]"

text \<open>\<open>messages[weekday] ?? fallback\<close>. The object has its seven own properties and
  inherits those of \<open>Object.prototype\<close>; the fallback is taken only when the key is
  neither.\<close>

definition select_message :: "string \<Rightarrow> string \<Rightarrow> string \<Rightarrow> string \<Rightarrow> jsvalue" where
  "select_message weekday utc baseInfo imageNote =
     (case map_of (messages utc baseInfo imageNote) weekday of
        Some msg \<Rightarrow> JStr msg
      | None \<Rightarrow>
          if weekday \<in> set Object_prototype_keys then JInherited weekday
          else JStr (''Hi from the ISS '' @ em_dash @ '' '' @ utc @ ''. '' @ baseInfo @ '' ''
                       @ imageNote
                       @ '' (ISS = International Space Station) #ISS #Space #NASA''))"

definition mapTime_of :: "string \<Rightarrow> string" where
  "mapTime_of url =
     (case URL_searchParams_get url ''TIME'' of
        None \<Rightarrow> ''unknown''
      | Some None \<Rightarrow> ''unknown''
      | Some (Some v) \<Rightarrow> v)"

definition light_of :: "jsvalue \<Rightarrow> string" where
  "light_of visibility = (if visibility = JStr ''daylight'' then sunlight_phrase else shadow_phrase)"

definition baseInfo_of :: "string \<Rightarrow> string \<Rightarrow> string \<Rightarrow> string \<Rightarrow> string" where
  "baseInfo_of coords alt speed light =
     ''I'' @ [CHR 0x27] @ ''m over '' @ coords @ '' at ~'' @ alt @ '', moving '' @ speed
       @ ''. Currently '' @ light @ ''.''"

definition imageNote_of :: "string \<Rightarrow> string" where
  "imageNote_of mapTime = ''View: NASA GIBS MODIS Terra True Color (TIME='' @ mapTime @ '')''"

text \<open>\<open>now.toISOString().replace('T', ' ').replace('Z', ' UTC')\<close>\<close>

definition utc_of :: "int option \<Rightarrow> thrown + string" where
  "utc_of now =
     and_then (toISOString now) (\<lambda>str.
       Inr (String_replace ''Z'' '' UTC'' (String_replace ''T'' '' '' str)))"

text \<open>
  \<open>createPostMessage(data)\<close>. Besides \<open>data\<close> the function reads the module constant
  \<open>MAP_URL\<close>, the clock twice (\<open>now\<close> for the time stamp, \<open>now'\<close> for the weekday) and the
  time zone of the host. The statements run in the order of the source; the first one
  that throws ends the call. The value returned is what the lookup in \<open>messages\<close> gives.
\<close>

definition createPostMessage ::
  "host \<Rightarrow> string \<Rightarrow> int \<Rightarrow> int \<Rightarrow> jsvalue \<Rightarrow> thrown + jsvalue" where
  "createPostMessage h MAP_URL now now' data =
     and_then (utc_of (new_Date now)) (\<lambda>utc.
       (let mapTime = mapTime_of MAP_URL in
     and_then (get_prop data ''latitude'') (\<lambda>latitude.
     and_then (call_toFixed h ''latitude'' latitude 2) (\<lambda>lat.
     and_then (get_prop data ''longitude'') (\<lambda>longitude.
     and_then (call_toFixed h ''longitude'' longitude 2) (\<lambda>lon.
       (let coords = lat @ degree_sign @ ''N, '' @ lon @ degree_sign @ ''E'' in
     and_then (get_prop data ''altitude'') (\<lambda>altitude.
     and_then (call_toFixed h ''altitude'' altitude 0) (\<lambda>a.
       (let alt = a @ '' km'' in
     and_then (get_prop data ''velocity'') (\<lambda>velocity.
     and_then (call_toFixed h ''velocity'' velocity 0) (\<lambda>v.
       (let speed = v @ '' km/h'' in
     and_then (get_prop data ''visibility'') (\<lambda>visibility.
       (let light = light_of visibility;
            baseInfo = baseInfo_of coords alt speed light;
            imageNote = imageNote_of mapTime
        in
     and_then (format_weekday h (new_Date now')) (\<lambda>weekday.
       Inr (select_message weekday utc baseInfo imageNote)))))))))))))))))"


section \<open>The three remote calls and \<open>main\<close>\<close>

text \<open>
  What the program does to the outside is a trace of events, oldest first. What the
  outside answers is a record: one reply for each request the program can make, the
  outcome of writing and of reading the image file, the readings of the clock and the
  configuration.
\<close>

datatype event =
    ConsoleLog jsvalue
  | ConsoleError thrown
  | HttpGet string nat
  | WriteFile string string
  | ReadFile string
  | HttpPost string "(string \<times> jsvalue) list" string string
  | ProcessExit nat
  | Uncaught thrown

text \<open>A reply to a request: the transport failed (with the value that the HTTP client
  throws), or a response came with its status and body. For a request with a timeout,
  \<open>None\<close> says that no reply came in time. The upload sets no timeout: it ends when
  the transport fails or a response comes.\<close>

datatype 'a reply = Failed thrown | Response nat 'a

record world =
  host_of :: host
  clock_start :: int
  clock_message :: int
  clock_weekday :: int
  dirname :: string
  FB_PAGE_ID :: string
  FB_ACCESS_TOKEN :: string
  iss_reply :: "jsvalue reply option"
  map_reply :: "string reply option"
  writeFile_outcome :: "thrown option"
  readFile_outcome :: "thrown + string"
  post_reply :: "jsvalue reply"

text \<open>
  The HTTP client (axios, with its defaults): the request promise rejects when the
  transport fails, when the timeout passes and when the status is outside 200 to 299;
  otherwise it resolves to the response, whose \<open>data\<close> is the body (parsed when it is
  JSON).
\<close>

definition axios_settle :: "'a reply \<Rightarrow> thrown + 'a" where
  "axios_settle r =
     (case r of
        Failed e \<Rightarrow> Inl e
      | Response status body \<Rightarrow>
          (if 200 \<le> status \<and> status < 300 then Inr body
           else Inl (ErrorObj (''Request failed with status code '' @ dec status))))"

definition axios_request :: "nat \<Rightarrow> 'a reply option \<Rightarrow> thrown + 'a" where
  "axios_request timeout r =
     (case r of
        None \<Rightarrow> Inl (ErrorObj (''timeout of '' @ dec timeout @ ''ms exceeded''))
      | Some x \<Rightarrow> axios_settle x)"

text \<open>An action takes the trace so far and returns its result and the longer trace.\<close>

type_synonym 'a action = "event list \<Rightarrow> (thrown + 'a) \<times> event list"

definition emit :: "event \<Rightarrow> unit action" where
  "emit e tr = (Inr (), tr @ [e])"

definition result :: "thrown + 'a \<Rightarrow> 'a action" where
  "result r tr = (r, tr)"

definition seq :: "'a action \<Rightarrow> ('a \<Rightarrow> 'b action) \<Rightarrow> 'b action" where
  "seq a f tr = (case a tr of (Inl e, tr') \<Rightarrow> (Inl e, tr') | (Inr x, tr') \<Rightarrow> f x tr')"

definition try_catch :: "'a action \<Rightarrow> (thrown \<Rightarrow> 'a action) \<Rightarrow> 'a action" where
  "try_catch a handler tr =
     (case a tr of (Inl e, tr') \<Rightarrow> handler e tr' | (Inr x, tr') \<Rightarrow> (Inr x, tr'))"

text \<open>\<open>error instanceof Error ? error.message : 'Unknown error'\<close>\<close>

definition message_or_unknown :: "thrown \<Rightarrow> string" where
  "message_or_unknown e = (case e of ErrorObj msg \<Rightarrow> msg | NonError \<Rightarrow> ''Unknown error'')"

definition ISS_API_URL :: string where
  "ISS_API_URL = ''https://api.wheretheiss.at/v1/satellites/25544''"

definition fetchISSData :: "world \<Rightarrow> jsvalue action" where
  "fetchISSData w =
     try_catch
       (seq (emit (HttpGet ISS_API_URL 5000)) (\<lambda>_.
        result (axios_request 5000 (iss_reply w))))
       (\<lambda>error. result (Inl (ErrorObj (''Failed to fetch ISS data: '' @ message_or_unknown error))))"

definition fetchMapImage :: "world \<Rightarrow> string \<Rightarrow> string action" where
  "fetchMapImage w url =
     (let imagePath = dirname w @ ''/nasa-map.jpg'' in
      seq (emit (HttpGet url 20000)) (\<lambda>_.
      seq (result (axios_request 20000 (map_reply w))) (\<lambda>buffer.
      seq (emit (WriteFile imagePath buffer)) (\<lambda>_.
      seq (result (case writeFile_outcome w of Some e \<Rightarrow> Inl e | None \<Rightarrow> Inr ())) (\<lambda>_.
      result (Inr imagePath))))))"

text \<open>\<open>path.basename\<close>: what follows the last slash.\<close>

definition basename :: "string \<Rightarrow> string" where
  "basename p = rev (takeWhile (\<lambda>c. c \<noteq> CHR ''/'') (rev p))"

text \<open>The event of the upload holds the address, the two text fields of the form, and the
  name and the content of the file part.\<close>

definition postToFacebook :: "world \<Rightarrow> string \<Rightarrow> jsvalue \<Rightarrow> unit action" where
  "postToFacebook w imagePath message =
     try_catch
       (let url = ''https://graph.facebook.com/v24.0/'' @ FB_PAGE_ID w @ ''/photos'';
            formData = [(''access_token'', JStr (FB_ACCESS_TOKEN w)), (''message'', message)]
        in
        seq (emit (ReadFile imagePath)) (\<lambda>_.
        seq (result (readFile_outcome w)) (\<lambda>imageBuffer.
        seq (emit (HttpPost url formData (basename imagePath) imageBuffer)) (\<lambda>_.
        seq (result (axios_settle (post_reply w))) (\<lambda>_.
        emit (ConsoleLog (JStr ''Posted to Facebook successfully!'')))))))
       (\<lambda>error. result (Inl (ErrorObj (''Facebook post failed: '' @ message_or_unknown error))))"

text \<open>\<open>main\<close>, for the value \<open>MAP_URL\<close> of the module constant.\<close>

definition main :: "world \<Rightarrow> string \<Rightarrow> unit action" where
  "main w MAP_URL =
     try_catch
       (seq (emit (ConsoleLog (JStr ''Fetching ISS data...''))) (\<lambda>_.
        seq (fetchISSData w) (\<lambda>issData.
        seq (emit (ConsoleLog (JStr ''Downloading map image...''))) (\<lambda>_.
        seq (fetchMapImage w MAP_URL) (\<lambda>imagePath.
        seq (emit (ConsoleLog (JStr ''Creating post message...''))) (\<lambda>_.
        seq (result (createPostMessage (host_of w) MAP_URL (clock_message w)
                     (clock_weekday w) issData)) (\<lambda>message.
        seq (emit (ConsoleLog (JStr ''Posting to Facebook...''))) (\<lambda>_.
        seq (emit (ConsoleLog message)) (\<lambda>_.
        postToFacebook w imagePath message)))))))))
       (\<lambda>error.
          seq (emit (ConsoleError error)) (\<lambda>_.
          emit (ProcessExit 1)))"

text \<open>The module: \<open>MAP_URL\<close> is computed once, when the module is loaded, then \<open>main\<close>
  runs. The trace of a run is the trace at its end.\<close>

definition run :: "world \<Rightarrow> event list" where
  "run w =
     (case getMapUrl (host_of w) (clock_start w) of
        Inl e \<Rightarrow> [Uncaught e]
      | Inr MAP_URL \<Rightarrow> snd (main w MAP_URL []))"


section \<open>Notions used in the statements\<close>

text \<open>The interface \<open>ISSData\<close>: the five properties with their declared types.\<close>

definition typeof :: "jsvalue \<Rightarrow> string" where
  "typeof v =
     (case v of
        JUndefined \<Rightarrow> ''undefined''
      | JNull \<Rightarrow> ''object''
      | JBool b \<Rightarrow> ''boolean''
      | JNum x \<Rightarrow> ''number''
      | JStr s \<Rightarrow> ''string''
      | JArr xs \<Rightarrow> ''object''
      | JObj ps \<Rightarrow> ''object''
      | JInherited k \<Rightarrow> (if k = ''__proto__'' then ''object'' else ''function''))"

definition has_type :: "jsvalue \<Rightarrow> string \<Rightarrow> string \<Rightarrow> bool" where
  "has_type v name ty = (case get_prop v name of Inl e \<Rightarrow> False | Inr x \<Rightarrow> typeof x = ty)"

definition is_ISSData :: "jsvalue \<Rightarrow> bool" where
  "is_ISSData v \<longleftrightarrow>
     has_type v ''latitude'' ''number'' \<and> has_type v ''longitude'' ''number''
     \<and> has_type v ''altitude'' ''number'' \<and> has_type v ''velocity'' ''number''
     \<and> has_type v ''visibility'' ''string''"


text \<open>The outcome of the telemetry call and of the download, and the events of the
  download, whatever the trace before them.\<close>

definition telemetry_outcome :: "world \<Rightarrow> thrown + jsvalue" where
  "telemetry_outcome w = fst (fetchISSData w [])"

definition download_outcome :: "world \<Rightarrow> string \<Rightarrow> thrown + string" where
  "download_outcome w url = fst (fetchMapImage w url [])"

definition download_events :: "world \<Rightarrow> string \<Rightarrow> event list" where
  "download_events w url = snd (fetchMapImage w url [])"


text \<open>An event of the download is a request other than the telemetry request, or the
  writing of the image file; an event of the publication is the reading of the image file
  or the upload.\<close>

fun is_download_event :: "event \<Rightarrow> bool" where
  "is_download_event (HttpGet u t) = (\<not> (u = ISS_API_URL \<and> t = 5000))"
| "is_download_event (WriteFile p b) = True"
| "is_download_event _ = False"

fun is_publish_event :: "event \<Rightarrow> bool" where
  "is_publish_event (ReadFile p) = True"
| "is_publish_event (HttpPost u f n b) = True"
| "is_publish_event _ = False"


text \<open>A snapshot read as the interface declares it.\<close>

record ISSData =
  latitude :: number
  longitude :: number
  altitude :: number
  velocity :: number
  visibility :: string

definition field :: "jsvalue \<Rightarrow> string \<Rightarrow> jsvalue" where
  "field v name = (case get_prop v name of Inl e \<Rightarrow> JUndefined | Inr x \<Rightarrow> x)"

definition number_of :: "jsvalue \<Rightarrow> number" where
  "number_of v = (case v of JNum x \<Rightarrow> x | _ \<Rightarrow> NaN)"

definition string_of :: "jsvalue \<Rightarrow> string" where
  "string_of v = (case v of JStr s \<Rightarrow> s | _ \<Rightarrow> [])"

definition as_ISSData :: "jsvalue \<Rightarrow> ISSData" where
  "as_ISSData v =
     \<lparr>latitude = number_of (field v ''latitude''),
      longitude = number_of (field v ''longitude''),
      altitude = number_of (field v ''altitude''),
      velocity = number_of (field v ''velocity''),
      visibility = string_of (field v ''visibility'')\<rparr>"

definition valid_time :: "int \<Rightarrow> bool" where
  "valid_time t \<longleftrightarrow> \<bar>t\<bar> \<le> 8640000000000000"

definition utc_text :: "int \<Rightarrow> string" where
  "utc_text t =
     String_replace ''Z'' '' UTC''
       (String_replace ''T'' '' '' (iso_date t @ ''T'' @ iso_time t @ ''Z''))"

definition coords_text :: "host \<Rightarrow> ISSData \<Rightarrow> string" where
  "coords_text h d =
     toFixed h (latitude d) 2 @ degree_sign @ ''N, '' @ toFixed h (longitude d) 2
       @ degree_sign @ ''E''"

definition baseInfo_text :: "host \<Rightarrow> ISSData \<Rightarrow> string" where
  "baseInfo_text h d =
     baseInfo_of (coords_text h d) (toFixed h (altitude d) 0 @ '' km'')
       (toFixed h (velocity d) 0 @ '' km/h'') (light_of (JStr (visibility d)))"

text \<open>The seven names of the weekdays, the sentence that each entry of \<open>messages\<close> has
  of its own, and the slots that all entries share: the time stamp, the summary of
  position, altitude, speed and light, the note on the image, and the fixed end.\<close>

definition weekday_names :: "string list" where
  "weekday_names =
     [''Sunday'', ''Monday'', ''Tuesday'', ''Wednesday'', ''Thursday'', ''Friday'', ''Saturday'']"

definition flourishes :: "(string \<times> string) list" where
  "flourishes =
     [(''Sunday'', ''Taking a breather and enjoying the view.''),
      (''Monday'', ''Kicked off the week with a research run. Here'' @ [CHR 0x27]
                   @ ''s the scene below.''),
      (''Tuesday'', ''Running experiments and watching the sunrise sweep across continents.''),
      (''Wednesday'', ''Midweek check-in from orbit '' @ em_dash
                      @ '' science, maintenance, and sweeping views.''),
      (''Thursday'', ''Preparing gear and sharing this snapshot from above.''),
      (''Friday'', ''Wrapping up a busy week onboard '' @ em_dash @ '' enjoy this view.''),
      (''Saturday'', ''Weekend vibes above Earth '' @ em_dash
                     @ '' peaceful and busy all at once.'')]"

definition template :: "string option \<Rightarrow> string \<Rightarrow> string \<Rightarrow> string \<Rightarrow> string" where
  "template flourish utc baseInfo imageNote =
     ''Hi from the ISS '' @ em_dash @ '' '' @ utc @ ''. '' @ baseInfo @ '' ''
       @ (case flourish of None \<Rightarrow> [] | Some f \<Rightarrow> f @ '' '')
       @ imageNote @ '' (ISS = International Space Station) #ISS #Space #NASA''"

text \<open>The decimal numeral of \<open>\<bar>r\<bar>\<close> rounded to \<open>f\<close> places (a half rounds away from
  zero), with the sign of \<open>r\<close>.\<close>

definition scaled :: "rat \<Rightarrow> nat \<Rightarrow> nat" where
  "scaled r f = nat \<lfloor>\<bar>r\<bar> * 10 ^ f + 1 / 2\<rfloor>"

definition decimal_text :: "rat \<Rightarrow> nat \<Rightarrow> string" where
  "decimal_text r f =
     (if r < 0 then ''-'' else []) @ dec (scaled r f div 10 ^ f)
       @ (if f = 0 then [] else ''.'' @ digits f (scaled r f))"

text \<open>The two forms of a time stamp: to the second, and to the millisecond.\<close>

definition seconds_stamp :: "int \<Rightarrow> string" where
  "seconds_stamp t =
     iso_date t @ '' '' @ digits 2 (nat (HourFromTime t)) @ '':''
       @ digits 2 (nat (MinFromTime t)) @ '':'' @ digits 2 (nat (SecFromTime t)) @ '' UTC''"

definition milliseconds_stamp :: "int \<Rightarrow> string" where
  "milliseconds_stamp t =
     iso_date t @ '' '' @ digits 2 (nat (HourFromTime t)) @ '':''
       @ digits 2 (nat (MinFromTime t)) @ '':'' @ digits 2 (nat (SecFromTime t)) @ ''.''
       @ digits 3 (nat (msFromTime t)) @ '' UTC''"

text \<open>The characters of a date and of a time of day in ISO form.\<close>

definition digit_chars :: "char set" where
  "digit_chars = set ''0123456789''"

definition date_chars :: "char set" where
  "date_chars = set ''0123456789-+''"

definition time_chars :: "char set" where
  "time_chars = set ''0123456789:.''"

text \<open>The calendar date of a time value in UTC as year, month (1 to 12) and day; the
  date one day before a date; a date in the form \<open>YYYY-MM-DD\<close>.\<close>

definition civil_date :: "int \<Rightarrow> int \<times> int \<times> int" where
  "civil_date t = (YearFromTime t, MonthFromTime t + 1, DateFromTime t)"

definition days_in_month :: "int \<Rightarrow> int \<Rightarrow> int" where
  "days_in_month y m =
     (if m = 2 then (if leap_year y then 29 else 28)
      else if m = 4 \<or> m = 6 \<or> m = 9 \<or> m = 11 then 30 else 31)"

fun day_before :: "int \<times> int \<times> int \<Rightarrow> int \<times> int \<times> int" where
  "day_before (y, m, d) =
     (if 1 < d then (y, m, d - 1)
      else if 1 < m then (y, m - 1, days_in_month y (m - 1))
      else (y - 1, 12, 31))"

definition format_date :: "int \<times> int \<times> int \<Rightarrow> string" where
  "format_date ymd =
     (case ymd of (y, m, d) \<Rightarrow> iso_year y @ ''-'' @ digits 2 (nat m) @ ''-'' @ digits 2 (nat d))"

text \<open>The outcome and the events of the upload.\<close>

definition publish_outcome :: "world \<Rightarrow> string \<Rightarrow> jsvalue \<Rightarrow> thrown + unit" where
  "publish_outcome w imagePath message = fst (postToFacebook w imagePath message [])"

definition publish_events :: "world \<Rightarrow> string \<Rightarrow> jsvalue \<Rightarrow> event list" where
  "publish_events w imagePath message = snd (postToFacebook w imagePath message [])"

text \<open>An event keeps to the URL when it is not a request, or is the telemetry request,
  or is a request to that URL. An event cites a date when it is not an upload, or is an
  upload whose message ends with the note on the image for that date and the fixed end.\<close>

fun download_from :: "string \<Rightarrow> event \<Rightarrow> bool" where
  "download_from url (HttpGet u t) = ((u = ISS_API_URL \<and> t = 5000) \<or> u = url)"
| "download_from url _ = True"

fun post_cites :: "string \<Rightarrow> event \<Rightarrow> bool" where
  "post_cites d (HttpPost u form name bytes) =
     (case map_of form ''message'' of
        Some (JStr msg) \<Rightarrow>
          suffix (''View: NASA GIBS MODIS Terra True Color (TIME='' @ d @ '')''
                    @ '' (ISS = International Space Station) #ISS #Space #NASA'') msg
      | _ \<Rightarrow> False)"
| "post_cites d _ = True"

text \<open>A text of a query with every \<open>+\<close> read as a space, as the parser of the query
  does; the query of \<open>MAP_URL\<close> up to the date.\<close>

definition plus_to_space :: "string \<Rightarrow> string" where
  "plus_to_space s = map (\<lambda>c. if c = CHR ''+'' then CHR '' '' else c) s"

definition MAP_URL_query_head :: string where
  "MAP_URL_query_head = ''SERVICE=WMS&REQUEST=GetMap&VERSION=1.3.0&LAYERS=MODIS_Terra_CorrectedReflectance_TrueColor&CRS=EPSG:4326&STYLES=&FORMAT=image/jpeg&TIME=''"

section \<open>Example inputs\<close>

text \<open>A host on UTC. None of the examples has a number of magnitude \<open>10^21\<close>, so that
  \<open>NumberToString\<close> is never applied; it is the empty text here.\<close>

definition host_utc :: host where
  "host_utc = \<lparr>LocalTZA = (\<lambda>t isUTC. 0), NumberToString = (\<lambda>x. [])\<rparr>"

text \<open>A host nine hours ahead of UTC all year.\<close>

definition host_tokyo :: host where
  "host_tokyo = \<lparr>LocalTZA = (\<lambda>t isUTC. 32400000), NumberToString = (\<lambda>x. [])\<rparr>"

text \<open>A host in the time zone America/New_York with its rules for 2024: daylight saving
  time, four hours behind UTC, from 2024-03-10T07:00:00Z to 2024-11-03T06:00:00Z, and
  standard time, five hours behind, otherwise. A local time that the clocks skip or
  repeat is read with the offset before the change, as ECMAScript prescribes.\<close>

definition host_new_york_2024 :: host where
  "host_new_york_2024 =
     \<lparr>LocalTZA = (\<lambda>t isUTC.
        if isUTC
        then (if 1710054000000 \<le> t \<and> t < 1730613600000 then - 14400000 else - 18000000)
        else (if 1710039600000 \<le> t \<and> t < 1730599200000 then - 14400000 else - 18000000)),
      NumberToString = (\<lambda>x. [])\<rparr>"

definition example_telemetry :: jsvalue where
  "example_telemetry =
     JObj [(''latitude'', JNum (Finite (6350497687057465 / 140737488355328))),
           (''longitude'', JNum (Finite (- (8617074937020023 / 70368744177664)))),
           (''altitude'', JNum (Finite (7189926436352819 / 17592186044416))),
           (''velocity'', JNum (Finite (7586712695026483 / 274877906944))),
           (''visibility'', JStr ''daylight'')]"


definition example_world :: world where
  "example_world =
     \<lparr>host_of = host_utc,
      clock_start = 1718452800000, clock_message = 1718452800000,
      clock_weekday = 1718452800000,
      dirname = ''/app/dist'', FB_PAGE_ID = ''1234567890'', FB_ACCESS_TOKEN = ''token'',
      iss_reply = Some (Response 200 example_telemetry),
      map_reply = Some (Response 200 ''image bytes''),
      writeFile_outcome = None,
      readFile_outcome = Inr ''image bytes'',
      post_reply = Response 200 (JObj [(''id'', JStr ''1'')])\<rparr>"

section \<open>The year of a day\<close>

lemma DayFromYear_mono: "y \<le> z \<Longrightarrow> DayFromYear y \<le> DayFromYear z"
proof (induction z rule: int_ge_induct)
  case base
  show ?case by simp
next
  case (step i)
  then show ?case by (simp add: DayFromYear_Suc DaysInYear_def)
qed

lemma DayFromYear_1970: "DayFromYear 1970 = 0"
  by (simp add: DayFromYear_def)

lemma DayFromYear_upper: "0 \<le> k \<Longrightarrow> DayFromYear (1970 + k) \<le> 366 * k"
proof (induction k rule: int_ge_induct)
  case base
  show ?case by (simp add: DayFromYear_1970)
next
  case (step i)
  have "DayFromYear (1970 + (i + 1)) = DayFromYear (1970 + i) + DaysInYear (1970 + i)"
    using DayFromYear_Suc [of "1970 + i"] by (simp add: add.assoc)
  with step show ?case by (simp add: DaysInYear_def split: if_splits)
qed

lemma DayFromYear_lower: "k \<le> 0 \<Longrightarrow> DayFromYear (1970 + k) \<le> 365 * k"
proof (induction k rule: int_le_induct)
  case base
  show ?case by (simp add: DayFromYear_1970)
next
  case (step i)
  have "DayFromYear (1970 + i) = DayFromYear (1970 + (i - 1)) + DaysInYear (1970 + (i - 1))"
    using DayFromYear_Suc [of "1970 + (i - 1)"] by (simp add: algebra_simps)
  with step show ?case by (simp add: DaysInYear_def split: if_splits)
qed

lemma year_upto_bounds:
  "DayFromYear y \<le> d \<Longrightarrow>
   DayFromYear (year_upto d y) \<le> d \<and> d < DayFromYear (year_upto d y + 1)"
proof (induction d y rule: year_upto.induct)
  case (1 d y)
  show ?case
  proof (cases "DayFromYear (y + 1) \<le> d")
    case True
    with "1.IH" show ?thesis by (subst (1 2) year_upto.simps) simp
  next
    case False
    with "1.prems" show ?thesis by (subst (1 2) year_upto.simps) simp
  qed
qed

lemma YearFromDay_bounds:
  "DayFromYear (YearFromDay d) \<le> d \<and> d < DayFromYear (YearFromDay d + 1)"
proof -
  let ?k = "if 0 \<le> d then d div 366 else d div 365"
  have "DayFromYear (1970 + ?k) \<le> d"
  proof (cases "0 \<le> d")
    case True
    then have "0 \<le> d div 366" by simp
    then have "DayFromYear (1970 + d div 366) \<le> 366 * (d div 366)" by (rule DayFromYear_upper)
    also have "\<dots> \<le> d" by simp
    finally show ?thesis using True by simp
  next
    case False
    then have "d div 365 < 0" by (simp add: neg_imp_zdiv_neg_iff)
    then have "d div 365 \<le> 0" by simp
    then have "DayFromYear (1970 + d div 365) \<le> 365 * (d div 365)" by (rule DayFromYear_lower)
    also have "\<dots> \<le> d" by simp
    finally show ?thesis using False by simp
  qed
  then show ?thesis unfolding YearFromDay_def by (rule year_upto_bounds)
qed

lemma YearFromDay_unique:
  assumes "DayFromYear y \<le> d" "d < DayFromYear (y + 1)"
  shows "YearFromDay d = y"
proof (rule ccontr)
  assume ne: "YearFromDay d \<noteq> y"
  note b = YearFromDay_bounds [of d]
  show False
  proof (cases "YearFromDay d < y")
    case True
    then have "DayFromYear (YearFromDay d + 1) \<le> DayFromYear y" by (intro DayFromYear_mono) simp
    with b assms show False by simp
  next
    case False
    with ne have "DayFromYear (y + 1) \<le> DayFromYear (YearFromDay d)" by (intro DayFromYear_mono) simp
    with b assms show False by simp
  qed
qed

section \<open>The pipeline\<close>

lemmas action_defs = emit_def result_def seq_def try_catch_def

lemma fetchISSData_eq:
  "fetchISSData w tr = (telemetry_outcome w, tr @ [HttpGet ISS_API_URL 5000])"
  by (simp add: telemetry_outcome_def fetchISSData_def action_defs split: sum.splits)

lemma fetchMapImage_eq:
  "fetchMapImage w url tr = (download_outcome w url, tr @ download_events w url)"
  by (simp add: download_outcome_def download_events_def fetchMapImage_def action_defs Let_def
           split: sum.splits option.splits)

lemma download_events_cases:
  "download_events w url = [HttpGet url 20000] \<or>
   download_events w url = [HttpGet url 20000, WriteFile (dirname w @ ''/nasa-map.jpg'') (projr (axios_request 20000 (map_reply w)))]"
  by (simp add: download_events_def fetchMapImage_def action_defs Let_def
           split: sum.splits option.splits)

lemma main_telemetry_fails:
  assumes "telemetry_outcome w = Inl e"
  shows "snd (main w url []) =
           [ConsoleLog (JStr ''Fetching ISS data...''), HttpGet ISS_API_URL 5000,
            ConsoleError e, ProcessExit 1]"
  by (simp add: main_def action_defs fetchISSData_eq assms)

lemma main_download_fails:
  assumes "telemetry_outcome w = Inr d" "download_outcome w url = Inl e"
  shows "snd (main w url []) =
           [ConsoleLog (JStr ''Fetching ISS data...''), HttpGet ISS_API_URL 5000,
            ConsoleLog (JStr ''Downloading map image...'')] @ download_events w url @
           [ConsoleError e, ProcessExit 1]"
  by (simp add: main_def action_defs fetchISSData_eq fetchMapImage_eq assms)


lemma dec_5000: "dec 5000 = ''5000''"
  by (simp add: dec.simps digit_char_def)

lemma dec_20000: "dec 20000 = ''20000''"
  by (simp add: dec.simps digit_char_def)

text \<open>
  C4. When the telemetry call fails, the run has no event of the download and none of the
  publication; when the download fails, the run has no event of the publication.
\<close>

theorem main_short_circuits:
  "(isl (telemetry_outcome w) \<longrightarrow>
      (\<forall>e \<in> set (snd (main w url [])). \<not> is_download_event e \<and> \<not> is_publish_event e))
   \<and> (isl (download_outcome w url) \<longrightarrow>
      (\<forall>e \<in> set (snd (main w url [])). \<not> is_publish_event e))"
proof (intro conjI impI)
  assume "isl (telemetry_outcome w)"
  then obtain e where "telemetry_outcome w = Inl e" by (cases "telemetry_outcome w") auto
  then show "\<forall>e \<in> set (snd (main w url [])). \<not> is_download_event e \<and> \<not> is_publish_event e"
    by (simp add: main_telemetry_fails)
next
  assume "isl (download_outcome w url)"
  then obtain e where e: "download_outcome w url = Inl e" by (cases "download_outcome w url") auto
  show "\<forall>e \<in> set (snd (main w url [])). \<not> is_publish_event e"
  proof (cases "telemetry_outcome w")
    case (Inl a)
    then show ?thesis by (simp add: main_telemetry_fails)
  next
    case (Inr d)
    then show ?thesis
      using download_events_cases [of w url] by (auto simp add: main_download_fails [OF Inr e])
  qed
qed

theorem main_short_circuits_witness:
  "isl (telemetry_outcome (example_world\<lparr>iss_reply := None, map_reply := None\<rparr>))
   \<and> isl (download_outcome (example_world\<lparr>iss_reply := None, map_reply := None\<rparr>) ''u'')
   \<and> list_all (\<lambda>e. \<not> is_download_event e \<and> \<not> is_publish_event e)
        (snd (main (example_world\<lparr>iss_reply := None, map_reply := None\<rparr>) ''u'' []))"
  using main_short_circuits [of "example_world\<lparr>iss_reply := None, map_reply := None\<rparr>" "''u''"]
  by (simp add: telemetry_outcome_def download_outcome_def fetchISSData_def fetchMapImage_def
        action_defs axios_request_def example_world_def Let_def list_all_iff)

text \<open>
  C5, as the code has it. \<open>fetchISSData\<close> fails with an \<open>Error\<close> whose message is
  \<open>Failed to fetch ISS data:\<close> followed by the message of the cause when the request fails
  in transport, times out or is answered with a status outside 200 to 299. It returns the
  body of every response with a status from 200 to 299 as it is.
\<close>

theorem fetchISSData_outcomes:
  "fetchISSData w tr =
     (case iss_reply w of
        None \<Rightarrow> Inl (ErrorObj ''Failed to fetch ISS data: timeout of 5000ms exceeded'')
      | Some (Failed e) \<Rightarrow>
          Inl (ErrorObj (''Failed to fetch ISS data: '' @ message_or_unknown e))
      | Some (Response status body) \<Rightarrow>
          (if 200 \<le> status \<and> status < 300 then Inr body
           else Inl (ErrorObj (''Failed to fetch ISS data: Request failed with status code ''
                               @ dec status))),
      tr @ [HttpGet ISS_API_URL 5000])"
  by (auto simp add: fetchISSData_def action_defs axios_request_def axios_settle_def dec_5000
           message_or_unknown_def split: reply.splits option.splits)

theorem fetchISSData_outcomes_witness:
  "fetchISSData (example_world\<lparr>iss_reply := Some (Response 503 JNull)\<rparr>) [] =
     (Inl (ErrorObj ''Failed to fetch ISS data: Request failed with status code 503''),
      [HttpGet ISS_API_URL 5000])"
  using fetchISSData_outcomes [of "example_world\<lparr>iss_reply := Some (Response 503 JNull)\<rparr>" "[]"]
  by (simp add: example_world_def dec.simps digit_char_def)

text \<open>
  C5, as the claim has it, fails: a response with status 200 whose body is the empty
  object, which has none of the five properties, is returned as the snapshot.
\<close>

theorem fetchISSData_returns_malformed_body:
  "\<not> is_ISSData (JObj [])
   \<and> fetchISSData (example_world\<lparr>iss_reply := Some (Response 200 (JObj []))\<rparr>) []
       = (Inr (JObj []), [HttpGet ISS_API_URL 5000])"
  by (simp add: is_ISSData_def has_type_def get_prop_def typeof_def fetchISSData_def action_defs
        axios_request_def axios_settle_def example_world_def)

text \<open>
  C6, at a download that times out: the error that reaches the handler of \<open>main\<close> is the
  error of the HTTP client as it is, with no mention of the download, where the other two
  calls put \<open>Failed to fetch ISS data:\<close> and \<open>Facebook post failed:\<close> in front.
\<close>

theorem imagery_failure_not_tagged:
  "snd (main (example_world\<lparr>map_reply := None\<rparr>) ''u'' []) =
     [ConsoleLog (JStr ''Fetching ISS data...''), HttpGet ISS_API_URL 5000,
      ConsoleLog (JStr ''Downloading map image...''), HttpGet ''u'' 20000,
      ConsoleError (ErrorObj ''timeout of 20000ms exceeded''), ProcessExit 1]"
  by (simp add: main_def fetchISSData_def fetchMapImage_def action_defs axios_request_def
        axios_settle_def example_world_def dec_20000 Let_def)


section \<open>Digits and rounding\<close>

lemma length_digits [simp]: "length (digits w n) = w"
  by (induction w arbitrary: n) simp_all

lemma dec_lt10: "n < 10 \<Longrightarrow> dec n = [digit_char n]"
  by (subst dec.simps) simp

lemma dec_ge10: "\<not> n < 10 \<Longrightarrow> dec n = dec (n div 10) @ [digit_char n]"
  by (subst dec.simps) simp

lemma dec_split: "10 ^ k \<le> n \<Longrightarrow> dec n = dec (n div 10 ^ k) @ digits k n"
proof (induction k arbitrary: n)
  case 0
  show ?case by simp
next
  case (Suc k)
  have "(1::nat) \<le> 10 ^ k" by simp
  then have "(10::nat) \<le> 10 ^ Suc k" by simp
  with Suc.prems have n10: "\<not> n < 10" by linarith
  from Suc.prems have "10 ^ k \<le> n div 10" by simp
  then have "dec (n div 10) = dec (n div 10 div 10 ^ k) @ digits k (n div 10)"
    by (rule Suc.IH)
  then show ?case using n10 by (simp add: dec_ge10 div_mult2_eq)
qed

lemma digits_zero: "digits k 0 = replicate k CHR ''0''"
  by (induction k) (simp_all add: digit_char_def replicate_append_same)

lemma dec_small: "n < 10 ^ k \<Longrightarrow> 0 < k \<Longrightarrow>
  length (dec n) \<le> k \<and> replicate (k - length (dec n)) CHR ''0'' @ dec n = digits k n"
proof (induction k arbitrary: n)
  case 0
  then show ?case by simp
next
  case (Suc k)
  show ?case
  proof (cases "n < 10")
    case True
    then show ?thesis by (simp add: dec_lt10 digits_zero)
  next
    case False
    with Suc.prems have k: "0 < k" by (cases k) auto
    from Suc.prems have "n div 10 < 10 ^ k" by simp
    from Suc.IH [OF this k] False show ?thesis by (simp add: dec_ge10 Suc_diff_le)
  qed
qed

lemma length_dec_large: "10 ^ k \<le> n \<Longrightarrow> k < length (dec n)"
proof -
  assume "10 ^ k \<le> n"
  then have "dec n = dec (n div 10 ^ k) @ digits k n" by (rule dec_split)
  moreover have "0 < length (dec (n div 10 ^ k))" by (subst dec.simps) simp
  ultimately show ?thesis by simp
qed


lemma dec_0: "dec 0 = ''0''"
  by (simp add: dec_lt10 digit_char_def)

lemma toFixed_Finite:
  assumes "\<bar>r\<bar> < 10 ^ 21"
  shows "toFixed h (Finite r) f = decimal_text r f"
proof (cases "f = 0")
  case True
  then show ?thesis using assms
    by (simp add: toFixed_def decimal_text_def scaled_def Let_def dec_0)
next
  case False
  define n where "n = scaled r f"
  define m where "m = dec n"
  define m' where "m' = (if length m \<le> f then replicate (f + 1 - length m) CHR ''0'' @ m else m)"
  have tf: "toFixed h (Finite r) f =
      (if r < 0 then ''-'' else []) @ take (length m' - f) m' @ ''.'' @ drop (length m' - f) m'"
    using assms False
    by (simp add: toFixed_def Let_def n_def m_def m'_def scaled_def dec_0 not_le)
  have "take (length m' - f) m' = dec (n div 10 ^ f) \<and> drop (length m' - f) m' = digits f n"
  proof (cases "n < 10 ^ f")
    case True
    with False have s: "length m \<le> f" "replicate (f - length m) CHR ''0'' @ m = digits f n"
      using dec_small [of n f] by (simp_all add: m_def)
    then have "m' = CHR ''0'' # digits f n"
      by (simp add: m'_def Suc_diff_le)
    moreover have "n div 10 ^ f = 0" using True by simp
    ultimately show ?thesis by (simp add: dec_0)
  next
    case False
    then have ge: "10 ^ f \<le> n" by simp
    then have "f < length m" unfolding m_def by (rule length_dec_large)
    then have "m' = m" by (simp add: m'_def)
    moreover have "m = dec (n div 10 ^ f) @ digits f n" unfolding m_def using ge by (rule dec_split)
    ultimately show ?thesis by simp
  qed
  then show ?thesis using False by (simp add: tf decimal_text_def n_def)
qed

lemma digits_2: "digits 2 n = [digit_char (n div 10), digit_char n]"
  by (simp add: numeral_2_eq_2)

lemma digits_3: "digits 3 n = [digit_char (n div 100), digit_char (n div 10), digit_char n]"
proof -
  have "n div 10 div 10 = n div 100" by (simp flip: div_mult2_eq)
  then show ?thesis by (simp add: numeral_3_eq_3)
qed

lemma example_latitude:
  "toFixed h (Finite (6350497687057465 / 140737488355328)) 2 = ''45.12''"
proof -
  have "\<lfloor>(6350497687057465 / 140737488355328 :: rat) * 10 ^ 2 + 1 / 2\<rfloor> = 4512"
    by (rule floor_unique) simp_all
  then have "scaled (6350497687057465 / 140737488355328) 2 = 4512"
    by (simp add: scaled_def)
  then show ?thesis
    by (subst toFixed_Finite) (simp_all add: decimal_text_def digits_2 dec.simps digit_char_def)
qed

lemma example_longitude:
  "toFixed h (Finite (- (8617074937020023 / 70368744177664))) 2 = ''-122.46''"
proof -
  have "\<lfloor>(8617074937020023 / 70368744177664 :: rat) * 10 ^ 2 + 1 / 2\<rfloor> = 12246"
    by (rule floor_unique) simp_all
  then have "scaled (- (8617074937020023 / 70368744177664)) 2 = 12246"
    by (simp add: scaled_def)
  then show ?thesis
    by (subst toFixed_Finite) (simp_all add: decimal_text_def digits_2 dec.simps digit_char_def)
qed

lemma example_altitude:
  "toFixed h (Finite (7189926436352819 / 17592186044416)) 0 = ''409''"
proof -
  have "\<lfloor>(7189926436352819 / 17592186044416 :: rat) + 1 / 2\<rfloor> = 409"
    by (rule floor_unique) simp_all
  then have "scaled (7189926436352819 / 17592186044416) 0 = 409"
    by (simp add: scaled_def)
  then show ?thesis
    by (subst toFixed_Finite) (simp_all add: decimal_text_def dec.simps digit_char_def)
qed

lemma example_velocity:
  "toFixed h (Finite (7586712695026483 / 274877906944)) 0 = ''27600''"
proof -
  have "\<lfloor>(7586712695026483 / 274877906944 :: rat) + 1 / 2\<rfloor> = 27600"
    by (rule floor_unique) simp_all
  then have "scaled (7586712695026483 / 274877906944) 0 = 27600"
    by (simp add: scaled_def)
  then show ?thesis
    by (subst toFixed_Finite) (simp_all add: decimal_text_def dec.simps digit_char_def)
qed


section \<open>The message of a well-typed snapshot\<close>

lemma has_type_number:
  "has_type v name ''number'' \<Longrightarrow> get_prop v name = Inr (JNum (number_of (field v name)))"
  by (cases "get_prop v name"; cases "projr (get_prop v name)")
     (auto simp add: has_type_def field_def number_of_def typeof_def split: if_splits)

lemma has_type_string:
  "has_type v name ''string'' \<Longrightarrow> get_prop v name = Inr (JStr (string_of (field v name)))"
  by (cases "get_prop v name"; cases "projr (get_prop v name)")
     (auto simp add: has_type_def field_def string_of_def typeof_def split: if_splits)

lemma createPostMessage_ISSData:
  assumes "is_ISSData v" "valid_time now" "valid_time now'"
  shows "createPostMessage h url now now' v =
           Inr (select_message (weekday_name (WeekDay (LocalTime h now'))) (utc_text now)
                  (baseInfo_text h (as_ISSData v)) (imageNote_of (mapTime_of url)))"
proof -
  from assms(1) have
    p: "get_prop v ''latitude'' = Inr (JNum (latitude (as_ISSData v)))"
       "get_prop v ''longitude'' = Inr (JNum (longitude (as_ISSData v)))"
       "get_prop v ''altitude'' = Inr (JNum (altitude (as_ISSData v)))"
       "get_prop v ''velocity'' = Inr (JNum (velocity (as_ISSData v)))"
       "get_prop v ''visibility'' = Inr (JStr (visibility (as_ISSData v)))"
    by (simp_all add: is_ISSData_def as_ISSData_def has_type_number has_type_string)
  have t: "new_Date now = Some now" "new_Date now' = Some now'"
    using assms(2,3) by (simp_all add: new_Date_def TimeClip_def valid_time_def)
  show ?thesis
    unfolding createPostMessage_def
    by (simp add: p t and_then_def utc_of_def toISOString_def call_toFixed_def format_weekday_def
          utc_text_def baseInfo_text_def coords_text_def Let_def)
qed


lemma weekday_name_in: "weekday_name (WeekDay t) \<in> set weekday_names"
  by (simp add: weekday_name_def weekday_names_def)

lemma select_message_known:
  "map_of flourishes wd = Some fl \<Longrightarrow>
   select_message wd utc b n = JStr (template (Some fl) utc b n)"
  by (auto simp add: flourishes_def select_message_def messages_def template_def
        split: if_splits)





lemma select_message_template:
  "\<exists>fl. select_message (weekday_name (WeekDay t)) utc b n = JStr (template fl utc b n)"
proof -
  obtain fl where "map_of flourishes (weekday_name (WeekDay t)) = Some fl"
    using weekday_name_in [of t] by (auto simp add: weekday_names_def flourishes_def)
  then show ?thesis using select_message_known by blast
qed

lemma example_is_ISSData: "is_ISSData example_telemetry"
  by (simp add: is_ISSData_def has_type_def get_prop_def typeof_def example_telemetry_def)

lemma example_as_ISSData:
  "as_ISSData example_telemetry =
     \<lparr>latitude = Finite (6350497687057465 / 140737488355328),
      longitude = Finite (- (8617074937020023 / 70368744177664)),
      altitude = Finite (7189926436352819 / 17592186044416),
      velocity = Finite (7586712695026483 / 274877906944),
      visibility = ''daylight''\<rparr>"
  by (simp add: as_ISSData_def field_def get_prop_def number_of_def string_of_def
        example_telemetry_def)




lemma valid_time_example: "valid_time 1718452800000"
  by (simp add: valid_time_def)


section \<open>The time stamp\<close>

lemma digit_char_in: "digit_char n \<in> digit_chars"
proof -
  have "n mod 10 < length ''0123456789''" by simp
  then show ?thesis unfolding digit_char_def digit_chars_def by (rule nth_mem)
qed

lemma set_digits: "x \<in> set (digits w n) \<Longrightarrow> x \<in> digit_chars"
proof (induction w arbitrary: n)
  case 0
  then show ?case by simp
next
  case (Suc w)
  then show ?case using digit_char_in [of n] by auto
qed

lemma digit_date: "x \<in> digit_chars \<Longrightarrow> x \<in> date_chars"
  by (auto simp add: digit_chars_def date_chars_def)

lemma digit_time: "x \<in> digit_chars \<Longrightarrow> x \<in> time_chars"
  by (auto simp add: digit_chars_def time_chars_def)

lemma sign_date: "CHR ''-'' \<in> date_chars" "CHR ''+'' \<in> date_chars"
  by (simp_all add: date_chars_def)

lemma sep_time: "CHR '':'' \<in> time_chars" "CHR ''.'' \<in> time_chars"
  by (simp_all add: time_chars_def)

lemma set_iso_year: "x \<in> set (iso_year y) \<Longrightarrow> x \<in> date_chars"
  by (auto simp add: iso_year_def sign_date dest!: set_digits digit_date split: if_splits)

lemma set_iso_date: "x \<in> set (iso_date t) \<Longrightarrow> x \<in> date_chars"
  by (auto simp add: iso_date_def sign_date dest: set_iso_year dest!: set_digits digit_date)

lemma set_iso_time: "x \<in> set (iso_time t) \<Longrightarrow> x \<in> time_chars"
  by (auto simp add: iso_time_def sep_time dest!: set_digits digit_time)

lemma String_replace_first:
  "c \<notin> set xs \<Longrightarrow> String_replace [c] rep (xs @ c # ys) = xs @ rep @ ys"
  by (induction xs) auto

lemma utc_text_eq: "utc_text t = milliseconds_stamp t"
proof -
  have T: "CHR ''T'' \<notin> set (iso_date t)"
    using set_iso_date [of "CHR ''T''" t] by (auto simp add: date_chars_def)
  have Z: "CHR ''Z'' \<notin> set (iso_date t @ '' '' @ iso_time t)"
    using set_iso_date [of "CHR ''Z''" t] set_iso_time [of "CHR ''Z''" t]
    by (auto simp add: date_chars_def time_chars_def)
  have "String_replace ''T'' '' '' (iso_date t @ ''T'' @ iso_time t @ ''Z'')
          = iso_date t @ '' '' @ iso_time t @ ''Z''"
    using String_replace_first [OF T, of "'' ''" "iso_time t @ ''Z''"] by simp
  moreover have "String_replace ''Z'' '' UTC'' ((iso_date t @ '' '' @ iso_time t) @ ''Z'')
          = (iso_date t @ '' '' @ iso_time t) @ '' UTC''"
    using String_replace_first [OF Z, of "'' UTC''" "[]"] by simp
  ultimately show ?thesis
    by (simp add: utc_text_def milliseconds_stamp_def iso_time_def)
qed

lemma utc_of_valid: "valid_time t \<Longrightarrow> utc_of (new_Date t) = Inr (milliseconds_stamp t)"
  using utc_text_eq [of t]
  by (simp add: utc_of_def new_Date_def TimeClip_def valid_time_def toISOString_def and_then_def
        utc_text_def)



lemma digits_numeral:
  "digits (numeral k) n = digits (pred_numeral k) (n div 10) @ [digit_char n]"
  by (simp only: numeral_eq_Suc [of k] digits.simps)

lemma digits_4:
  "digits 4 n = [digit_char (n div 1000), digit_char (n div 100), digit_char (n div 10),
                 digit_char n]"
proof -
  have "n div 10 div 10 = n div 100" "n div 10 div 10 div 10 = n div 1000"
    by (simp_all flip: div_mult2_eq)
  then show ?thesis by (simp add: digits_numeral)
qed

lemma YearFromTime_eq:
  "DayFromYear y \<le> Day t \<Longrightarrow> Day t < DayFromYear (y + 1) \<Longrightarrow> YearFromTime t = y"
  unfolding YearFromTime_def by (rule YearFromDay_unique)

text \<open>The date of a time value from its day number, step by step.\<close>

lemma iso_date_civil:
  assumes "Day t = d" "DayFromYear y = a" "DayFromYear (y + 1) = b" "a \<le> d" "d < b"
    and "DaysInYear y = 365 + l" "month_of_yday l (d - a) = m" "month_start l m = s"
  shows "YearFromTime t = y \<and> MonthFromTime t = m \<and> DateFromTime t = d - a - s + 1
         \<and> iso_date t = iso_year y @ ''-'' @ digits 2 (nat (m + 1)) @ ''-''
                           @ digits 2 (nat (d - a - s + 1))"
proof -
  have y: "YearFromTime t = y" using assms(1-5) by (intro YearFromTime_eq) simp_all
  have "DaysInYear y = 365 \<or> DaysInYear y = 366" by (simp add: DaysInYear_def)
  then have l: "InLeapYear t = l" using assms(6) by (auto simp add: InLeapYear_def y leap_year_def)
  show ?thesis
    using assms
    by (simp add: iso_date_def MonthFromTime_def DateFromTime_def DayWithinYear_def y l)
qed

lemmas time_defs =
  msPerHour_def msPerMinute_def msPerSecond_def
  HourFromTime_def MinFromTime_def SecFromTime_def msFromTime_def

lemmas digit_defs = digits_2 digits_3 digits_4 digit_char_def

lemma example_date:
  "YearFromTime 1718452800000 = 2024 \<and> MonthFromTime 1718452800000 = 5
   \<and> DateFromTime 1718452800000 = 15 \<and> iso_date 1718452800000 = ''2024-06-15''"
proof -
  have "Day 1718452800000 = 19889" by (simp add: Day_def msPerDay_def)
  moreover have "DayFromYear 2024 = 19723" "DayFromYear (2024 + 1) = 20089"
    by (simp_all add: DayFromYear_def)
  moreover have "DaysInYear 2024 = 365 + 1" by (simp add: DaysInYear_def)
  moreover have "month_of_yday 1 (19889 - 19723) = 5" by (simp add: month_of_yday_def)
  moreover have "month_start 1 5 = 152" by (simp add: month_start_def)
  ultimately show ?thesis
    using iso_date_civil [of 1718452800000 19889 2024 19723 20089 1 5 152]
    by (simp add: iso_year_def digit_defs)
qed

text \<open>
  C7. In the message of every snapshot the phrase after \<open>Currently\<close> is the sunlight
  phrase when \<open>visibility\<close> is the string \<open>daylight\<close> and the shadow phrase for every
  other string; the two phrases differ.
\<close>

theorem light_phrase:
  "sunlight_phrase \<noteq> shadow_phrase
   \<and> (is_ISSData v \<and> valid_time now \<and> valid_time now' \<longrightarrow>
        (\<exists>fl. createPostMessage h url now now' v =
           Inr (JStr (template fl (utc_text now)
                  (''I'' @ [CHR 0x27] @ ''m over '' @ coords_text h (as_ISSData v) @ '' at ~''
                     @ toFixed h (altitude (as_ISSData v)) 0 @ '' km, moving ''
                     @ toFixed h (velocity (as_ISSData v)) 0 @ '' km/h. Currently ''
                     @ (if visibility (as_ISSData v) = ''daylight''
                        then sunlight_phrase else shadow_phrase) @ ''.'')
                  (imageNote_of (mapTime_of url))))))"
proof (intro conjI impI)
  show "sunlight_phrase \<noteq> shadow_phrase"
    by (simp add: sunlight_phrase_def shadow_phrase_def)
next
  assume a: "is_ISSData v \<and> valid_time now \<and> valid_time now'"
  obtain fl where
    "select_message (weekday_name (WeekDay (LocalTime h now'))) (utc_text now)
       (baseInfo_text h (as_ISSData v)) (imageNote_of (mapTime_of url))
     = JStr (template fl (utc_text now) (baseInfo_text h (as_ISSData v)) (imageNote_of (mapTime_of url)))"
    using select_message_template by blast
  with a have "createPostMessage h url now now' v =
      Inr (JStr (template fl (utc_text now) (baseInfo_text h (as_ISSData v))
             (imageNote_of (mapTime_of url))))"
    by (simp add: createPostMessage_ISSData)
  then show "\<exists>fl. createPostMessage h url now now' v =
           Inr (JStr (template fl (utc_text now)
                  (''I'' @ [CHR 0x27] @ ''m over '' @ coords_text h (as_ISSData v) @ '' at ~''
                     @ toFixed h (altitude (as_ISSData v)) 0 @ '' km, moving ''
                     @ toFixed h (velocity (as_ISSData v)) 0 @ '' km/h. Currently ''
                     @ (if visibility (as_ISSData v) = ''daylight''
                        then sunlight_phrase else shadow_phrase) @ ''.'')
                  (imageNote_of (mapTime_of url))))"
    by (auto simp add: baseInfo_text_def baseInfo_of_def light_of_def)
qed


theorem light_phrase_witness:
  "is_ISSData example_telemetry \<and> valid_time 1718452800000
   \<and> visibility (as_ISSData example_telemetry) = ''daylight''
   \<and> (\<exists>fl. createPostMessage host_utc ''u'' 1718452800000 1718452800000 example_telemetry =
           Inr (JStr (template fl (utc_text 1718452800000)
                  (''I'' @ [CHR 0x27] @ ''m over 45.12'' @ degree_sign @ ''N, -122.46''
                     @ degree_sign @ ''E at ~409 km, moving 27600 km/h. Currently ''
                     @ sunlight_phrase @ ''.'')
                  (imageNote_of (mapTime_of ''u'')))))"
  using light_phrase [where v = example_telemetry and now = 1718452800000
      and now' = 1718452800000 and h = host_utc and url = "''u''"]
  by (simp add: example_is_ISSData valid_time_example example_as_ISSData coords_text_def
        example_latitude example_longitude example_altitude example_velocity)













text \<open>
  C3, as the claim has it, fails: at 2024-06-15T12:00:00Z the time stamp is
  \<open>2024-06-15 12:00:00.000 UTC\<close>, with the milliseconds that \<open>toISOString\<close> writes, not
  \<open>2024-06-15 12:00:00 UTC\<close>.
\<close>

theorem timestamp_has_milliseconds:
  "utc_of (new_Date 1718452800000) = Inr ''2024-06-15 12:00:00.000 UTC''
   \<and> seconds_stamp 1718452800000 = ''2024-06-15 12:00:00 UTC''
   \<and> utc_of (new_Date 1718452800000) \<noteq> Inr (seconds_stamp 1718452800000)"
proof -
  have d: "iso_date 1718452800000 = ''2024-06-15''" using example_date by simp
  have v: "valid_time 1718452800000" by (simp add: valid_time_def)
  show ?thesis
    by (simp add: utc_of_valid [OF v] milliseconds_stamp_def seconds_stamp_def d time_defs
          digit_defs)
qed


text \<open>
  C3, as the code has it: the time stamp of the message is the date, a space, the time of
  day to the millisecond, a space and \<open>UTC\<close>; for a year from 0 to 9999 that is
  \<open>YYYY-MM-DD HH:MM:SS.mmm UTC\<close>.
\<close>

theorem timestamp_form:
  "(valid_time now \<longrightarrow> utc_of (new_Date now) = Inr (milliseconds_stamp now))
   \<and> (0 \<le> YearFromTime now \<and> YearFromTime now \<le> 9999 \<longrightarrow>
        milliseconds_stamp now =
          digits 4 (nat (YearFromTime now)) @ ''-'' @ digits 2 (nat (MonthFromTime now + 1))
            @ ''-'' @ digits 2 (nat (DateFromTime now)) @ '' ''
            @ digits 2 (nat (HourFromTime now)) @ '':'' @ digits 2 (nat (MinFromTime now))
            @ '':'' @ digits 2 (nat (SecFromTime now)) @ ''.''
            @ digits 3 (nat (msFromTime now)) @ '' UTC'')
   \<and> (is_ISSData v \<and> valid_time now \<and> valid_time now' \<longrightarrow>
        (\<exists>fl. createPostMessage h url now now' v =
           Inr (JStr (template fl (milliseconds_stamp now) (baseInfo_text h (as_ISSData v))
                  (imageNote_of (mapTime_of url))))))"
proof (intro conjI impI)
  assume "valid_time now"
  then show "utc_of (new_Date now) = Inr (milliseconds_stamp now)" by (rule utc_of_valid)
next
  assume "0 \<le> YearFromTime now \<and> YearFromTime now \<le> 9999"
  then show "milliseconds_stamp now =
          digits 4 (nat (YearFromTime now)) @ ''-'' @ digits 2 (nat (MonthFromTime now + 1))
            @ ''-'' @ digits 2 (nat (DateFromTime now)) @ '' ''
            @ digits 2 (nat (HourFromTime now)) @ '':'' @ digits 2 (nat (MinFromTime now))
            @ '':'' @ digits 2 (nat (SecFromTime now)) @ ''.''
            @ digits 3 (nat (msFromTime now)) @ '' UTC''"
    by (simp add: milliseconds_stamp_def iso_date_def iso_year_def)
next
  assume a: "is_ISSData v \<and> valid_time now \<and> valid_time now'"
  obtain fl where
    "select_message (weekday_name (WeekDay (LocalTime h now'))) (utc_text now)
       (baseInfo_text h (as_ISSData v)) (imageNote_of (mapTime_of url))
     = JStr (template fl (utc_text now) (baseInfo_text h (as_ISSData v)) (imageNote_of (mapTime_of url)))"
    using select_message_template by blast
  with a show "\<exists>fl. createPostMessage h url now now' v =
           Inr (JStr (template fl (milliseconds_stamp now) (baseInfo_text h (as_ISSData v))
                  (imageNote_of (mapTime_of url))))"
    by (auto simp add: createPostMessage_ISSData utc_text_eq)
qed

theorem timestamp_form_witness:
  "valid_time 1718452800000
   \<and> utc_of (new_Date 1718452800000) = Inr (milliseconds_stamp 1718452800000)
   \<and> 0 \<le> YearFromTime 1718452800000 \<and> YearFromTime 1718452800000 \<le> 9999
   \<and> milliseconds_stamp 1718452800000 = ''2024-06-15 12:00:00.000 UTC''
   \<and> is_ISSData example_telemetry
   \<and> (\<exists>fl. createPostMessage host_utc ''u'' 1718452800000 1718452800000 example_telemetry =
           Inr (JStr (template fl (milliseconds_stamp 1718452800000)
                  (baseInfo_text host_utc (as_ISSData example_telemetry))
                  (imageNote_of (mapTime_of ''u'')))))"
proof -
  have y: "YearFromTime 1718452800000 = 2024" using example_date by simp
  have d: "iso_date 1718452800000 = ''2024-06-15''" using example_date by simp
  have m: "milliseconds_stamp 1718452800000 = ''2024-06-15 12:00:00.000 UTC''"
    by (simp add: milliseconds_stamp_def d time_defs digit_defs)
  show ?thesis
    using timestamp_form [where now = 1718452800000 and now' = 1718452800000
        and v = example_telemetry and h = host_utc and url = "''u''"]
    by (simp add: y m example_is_ISSData valid_time_example)
qed



section \<open>What the message depends on\<close>

lemma toFixed_LocalTZA: "toFixed (h\<lparr>LocalTZA := z\<rparr>) x f = toFixed h x f"
  by (cases x) (simp_all add: toFixed_def Let_def)

lemma baseInfo_text_LocalTZA: "baseInfo_text (h\<lparr>LocalTZA := z\<rparr>) d = baseInfo_text h d"
  by (simp add: baseInfo_text_def coords_text_def toFixed_LocalTZA)

lemma toFixed_hosts: "toFixed host_tokyo x f = toFixed host_utc x f"
  by (cases x) (simp_all add: toFixed_def Let_def host_tokyo_def host_utc_def)

lemma baseInfo_text_hosts: "baseInfo_text host_tokyo d = baseInfo_text host_utc d"
  by (simp add: baseInfo_text_def coords_text_def toFixed_hosts)


text \<open>
  C2, as the claim has it, fails: with the same snapshot, the same URL and the same
  reading of the clock, 2024-06-15T23:30:00Z, a host on UTC composes the message of
  Saturday and a host nine hours ahead composes the message of Sunday.
\<close>

theorem message_depends_on_time_zone:
  "createPostMessage host_utc ''u'' 1718494200000 1718494200000 example_telemetry
     = Inr (select_message ''Saturday'' (utc_text 1718494200000)
              (baseInfo_text host_utc (as_ISSData example_telemetry))
              (imageNote_of (mapTime_of ''u'')))
   \<and> createPostMessage host_tokyo ''u'' 1718494200000 1718494200000 example_telemetry
     = Inr (select_message ''Sunday'' (utc_text 1718494200000)
              (baseInfo_text host_utc (as_ISSData example_telemetry))
              (imageNote_of (mapTime_of ''u'')))
   \<and> createPostMessage host_utc ''u'' 1718494200000 1718494200000 example_telemetry
     \<noteq> createPostMessage host_tokyo ''u'' 1718494200000 1718494200000 example_telemetry"
proof -
  have v: "valid_time 1718494200000" by (simp add: valid_time_def)
  have w1: "weekday_name (WeekDay (LocalTime host_utc 1718494200000)) = ''Saturday''"
    by (simp add: weekday_name_def WeekDay_def LocalTime_def host_utc_def Day_def msPerDay_def)
  have w2: "weekday_name (WeekDay (LocalTime host_tokyo 1718494200000)) = ''Sunday''"
    by (simp add: weekday_name_def WeekDay_def LocalTime_def host_tokyo_def Day_def msPerDay_def)
  have ne: "select_message ''Saturday'' x b n \<noteq> select_message ''Sunday'' x b n" for x b n
    by (simp add: select_message_def messages_def)
  show ?thesis
    by (simp add: createPostMessage_ISSData example_is_ISSData v w1 w2 baseInfo_text_hosts ne)
qed


text \<open>
  C2, as the code has it: for a well-typed snapshot and readings of the clock in range,
  \<open>createPostMessage\<close> returns a message; the message is the same on two hosts whose
  time zones give the same offset at the second reading of the clock; and composing adds
  no event to the trace.
\<close>

theorem compose_total_and_determined:
  "is_ISSData v \<and> valid_time now \<and> valid_time now' \<longrightarrow>
     (\<exists>msg. createPostMessage h url now now' v = Inr (JStr msg))
     \<and> (\<forall>z. z now' True = LocalTZA h now' True \<longrightarrow>
           createPostMessage (h\<lparr>LocalTZA := z\<rparr>) url now now' v
             = createPostMessage h url now now' v)
     \<and> snd (result (createPostMessage h url now now' v) tr) = tr"
proof (intro impI conjI)
  assume a: "is_ISSData v \<and> valid_time now \<and> valid_time now'"
  obtain fl where
    "select_message (weekday_name (WeekDay (LocalTime h now'))) (utc_text now)
       (baseInfo_text h (as_ISSData v)) (imageNote_of (mapTime_of url))
     = JStr (template fl (utc_text now) (baseInfo_text h (as_ISSData v))
               (imageNote_of (mapTime_of url)))"
    using select_message_template by blast
  with a show "\<exists>msg. createPostMessage h url now now' v = Inr (JStr msg)"
    by (simp add: createPostMessage_ISSData)
next
  assume "is_ISSData v \<and> valid_time now \<and> valid_time now'"
  then show "\<forall>z. z now' True = LocalTZA h now' True \<longrightarrow>
           createPostMessage (h\<lparr>LocalTZA := z\<rparr>) url now now' v
             = createPostMessage h url now now' v"
    by (simp add: createPostMessage_ISSData baseInfo_text_LocalTZA LocalTime_def)
next
  show "snd (result (createPostMessage h url now now' v) tr) = tr"
    by (simp add: result_def)
qed


theorem compose_total_and_determined_witness:
  "is_ISSData example_telemetry \<and> valid_time 1718452800000
   \<and> (\<exists>msg. createPostMessage host_utc ''u'' 1718452800000 1718452800000 example_telemetry
               = Inr (JStr msg))
   \<and> createPostMessage (host_utc\<lparr>LocalTZA := (\<lambda>t isUTC. if t < 0 then 3600000 else 0)\<rparr>) ''u''
         1718452800000 1718452800000 example_telemetry
       = createPostMessage host_utc ''u'' 1718452800000 1718452800000 example_telemetry"
proof -
  have a: "is_ISSData example_telemetry \<and> valid_time 1718452800000 \<and> valid_time 1718452800000"
    by (simp add: example_is_ISSData valid_time_example)
  note t = compose_total_and_determined [where v = example_telemetry and now = 1718452800000
      and now' = 1718452800000 and h = host_utc and url = "''u''" and tr = "[]", THEN mp, OF a]
  have z: "(\<lambda>t isUTC. if t < 0 then 3600000 else 0) (1718452800000 :: int) True
             = LocalTZA host_utc 1718452800000 True"
    by (simp add: host_utc_def)
  from t have "\<forall>z. z 1718452800000 True = LocalTZA host_utc 1718452800000 True \<longrightarrow>
           createPostMessage (host_utc\<lparr>LocalTZA := z\<rparr>) ''u'' 1718452800000 1718452800000
             example_telemetry
           = createPostMessage host_utc ''u'' 1718452800000 1718452800000 example_telemetry"
    by (rule conjunct2 [THEN conjunct1])
  note d = this
  have "createPostMessage (host_utc\<lparr>LocalTZA := (\<lambda>t isUTC. if t < 0 then 3600000 else 0)\<rparr>)
       ''u'' 1718452800000 1718452800000 example_telemetry
     = createPostMessage host_utc ''u'' 1718452800000 1718452800000 example_telemetry"
    by (rule mp [OF spec [OF d, where x = "\<lambda>t isUTC. if t < 0 then 3600000 else 0"] z])
  moreover from t have "\<exists>msg. createPostMessage host_utc ''u'' 1718452800000 1718452800000
      example_telemetry = Inr (JStr msg)"
    by (rule conjunct1)
  ultimately show ?thesis using a by simp
qed


section \<open>The date of the imagery\<close>

lemma YearFromTime_bounds:
  "DayFromYear (YearFromTime t) \<le> Day t \<and> Day t < DayFromYear (YearFromTime t + 1)"
  unfolding YearFromTime_def by (rule YearFromDay_bounds)

lemma DayWithinYear_range:
  "0 \<le> DayWithinYear t \<and> DayWithinYear t < 365 + InLeapYear t"
  using YearFromTime_bounds [of t]
  by (auto simp add: DayWithinYear_def InLeapYear_def leap_year_def DayFromYear_Suc DaysInYear_def
        split: if_splits)

lemma InLeapYear_cases: "InLeapYear t = 0 \<or> InLeapYear t = 1"
  by (simp add: InLeapYear_def)

lemma month_of_yday_range: "0 \<le> month_of_yday l d \<and> month_of_yday l d \<le> 11"
  by (simp add: month_of_yday_def)

lemma MakeDay_of_time:
  "MakeDay (YearFromTime t) (MonthFromTime t) (DateFromTime t + k) = Day t + k"
proof -
  have r: "0 \<le> MonthFromTime t" "MonthFromTime t \<le> 11"
    using month_of_yday_range by (simp_all add: MonthFromTime_def)
  then have "MonthFromTime t div 12 = 0" "MonthFromTime t mod 12 = MonthFromTime t"
    by simp_all
  then show ?thesis
    by (simp add: MakeDay_def DateFromTime_def DayWithinYear_def InLeapYear_def Let_def)
qed

lemma Day_TimeWithinDay: "Day t * msPerDay + TimeWithinDay t = t"
  by (simp add: Day_def TimeWithinDay_def)

lemma setDate_yesterday:
  "setDate h t (getDate h t - 1) = TimeClip (UTC h (LocalTime h t - msPerDay))"
proof -
  have "MakeDate (Day (LocalTime h t) - 1) (TimeWithinDay (LocalTime h t))
          = LocalTime h t - msPerDay"
    using Day_TimeWithinDay [of "LocalTime h t"] by (simp add: MakeDate_def algebra_simps)
  then show ?thesis
    using MakeDay_of_time [of "LocalTime h t" "- 1"]
    by (simp add: setDate_def getDate_def Let_def)
qed

lemma Day_yesterday: "Day (t - msPerDay) = Day t - 1"
proof -
  have "(t - msPerDay) div msPerDay = (t + msPerDay * (- 1)) div msPerDay" by simp
  also have "\<dots> = t div msPerDay + (- 1)"
    by (subst div_mult_self2) (simp_all add: msPerDay_def)
  finally show ?thesis by (simp add: Day_def)
qed

lemma yday_step0:
  assumes "0 < yd" "yd < 365"
  shows "(month_of_yday 0 (yd - 1) + 1, yd - 1 - month_start 0 (month_of_yday 0 (yd - 1)) + 1)
       = (if 1 < yd - month_start 0 (month_of_yday 0 yd) + 1
          then (month_of_yday 0 yd + 1, yd - month_start 0 (month_of_yday 0 yd) + 1 - 1)
          else (month_of_yday 0 yd + 1 - 1,
                (if month_of_yday 0 yd + 1 - 1 = 2 then 28
                 else if month_of_yday 0 yd + 1 - 1 = 4 \<or> month_of_yday 0 yd + 1 - 1 = 6 \<or>
                         month_of_yday 0 yd + 1 - 1 = 9 \<or> month_of_yday 0 yd + 1 - 1 = 11
                 then 30 else 31)))"
  using assms
  by (simp add: month_of_yday_def month_start_def)

lemma yday_step1:
  assumes "0 < yd" "yd < 366"
  shows "(month_of_yday 1 (yd - 1) + 1, yd - 1 - month_start 1 (month_of_yday 1 (yd - 1)) + 1)
       = (if 1 < yd - month_start 1 (month_of_yday 1 yd) + 1
          then (month_of_yday 1 yd + 1, yd - month_start 1 (month_of_yday 1 yd) + 1 - 1)
          else (month_of_yday 1 yd + 1 - 1,
                (if month_of_yday 1 yd + 1 - 1 = 2 then 29
                 else if month_of_yday 1 yd + 1 - 1 = 4 \<or> month_of_yday 1 yd + 1 - 1 = 6 \<or>
                         month_of_yday 1 yd + 1 - 1 = 9 \<or> month_of_yday 1 yd + 1 - 1 = 11
                 then 30 else 31)))"
  using assms
  by (simp add: month_of_yday_def month_start_def)

lemma yday_first: "month_of_yday l 0 = 0 \<and> month_start l 0 = 0"
  by (simp add: month_of_yday_def month_start_def)

lemma yday_last:
  "l = 0 \<or> l = 1 \<Longrightarrow> month_of_yday l (364 + l) = 11 \<and> month_start l 11 = 334 + l"
  by (auto simp add: month_of_yday_def month_start_def)

lemma civil_date_yesterday: "civil_date (t - msPerDay) = day_before (civil_date t)"
proof -
  define y where "y = YearFromTime t"
  define yd where "yd = DayWithinYear t"
  define l where "l = InLeapYear t"
  have d: "Day (t - msPerDay) = Day t - 1" by (rule Day_yesterday)
  have b: "DayFromYear y \<le> Day t" "Day t < DayFromYear (y + 1)"
    using YearFromTime_bounds [of t] by (simp_all add: y_def)
  have yd: "Day t = DayFromYear y + yd" by (simp add: yd_def DayWithinYear_def y_def)
  have r: "0 \<le> yd" "yd < 365 + l" using DayWithinYear_range [of t] by (simp_all add: yd_def l_def)
  have l: "l = 0 \<or> l = 1" using InLeapYear_cases [of t] by (simp add: l_def)
  have ly: "leap_year y \<longleftrightarrow> l = 1" by (simp add: l_def InLeapYear_def y_def)
  have c: "civil_date t = (y, month_of_yday l yd + 1, yd - month_start l (month_of_yday l yd) + 1)"
    by (simp add: civil_date_def MonthFromTime_def DateFromTime_def y_def yd_def l_def)
  show ?thesis
  proof (cases "yd = 0")
    case True
    have s: "DayFromYear y = DayFromYear (y - 1) + DaysInYear (y - 1)"
      using DayFromYear_Suc [of "y - 1"] by simp
    have dpos: "365 \<le> DaysInYear (y - 1)" by (simp add: DaysInYear_def)
    have y': "YearFromTime (t - msPerDay) = y - 1"
    proof (rule YearFromDay_unique [of "y - 1" "Day (t - msPerDay)", folded YearFromTime_def])
      show "DayFromYear (y - 1) \<le> Day (t - msPerDay)" using s dpos yd True by (simp add: d)
      show "Day (t - msPerDay) < DayFromYear (y - 1 + 1)" using yd True by (simp add: d)
    qed
    define l' where "l' = InLeapYear (t - msPerDay)"
    have l': "l' = 0 \<or> l' = 1" using InLeapYear_cases [of "t - msPerDay"] by (simp add: l'_def)
    have dl: "DaysInYear (y - 1) = 365 + l'"
      by (simp add: l'_def InLeapYear_def y' leap_year_def DaysInYear_def)
    have yd': "DayWithinYear (t - msPerDay) = 364 + l'"
      using s dl yd True by (simp add: DayWithinYear_def y' d)
    have "civil_date (t - msPerDay) = (y - 1, 12, 31)"
      using yday_last [OF l']
      by (simp add: civil_date_def MonthFromTime_def DateFromTime_def y' yd' flip: l'_def)
    moreover have "day_before (civil_date t) = (y - 1, 12, 31)"
      using yday_first [of l] True by (simp add: c)
    ultimately show ?thesis by simp
  next
    case False
    with r have pos: "0 < yd" by simp
    have y': "YearFromTime (t - msPerDay) = y"
    proof (rule YearFromDay_unique [of y "Day (t - msPerDay)", folded YearFromTime_def])
      show "DayFromYear y \<le> Day (t - msPerDay)" using yd pos by (simp add: d)
      show "Day (t - msPerDay) < DayFromYear (y + 1)" using b by (simp add: d)
    qed
    have yd': "DayWithinYear (t - msPerDay) = yd - 1"
      using yd by (simp add: DayWithinYear_def y' d)
    have l': "InLeapYear (t - msPerDay) = l"
      by (simp add: InLeapYear_def y' l_def y_def)
    have c': "civil_date (t - msPerDay) =
        (y, month_of_yday l (yd - 1) + 1, yd - 1 - month_start l (month_of_yday l (yd - 1)) + 1)"
      by (simp add: civil_date_def MonthFromTime_def DateFromTime_def y' yd' l')
    have j: "month_start l (month_of_yday l yd) < yd" if "\<not> 0 < month_of_yday l yd"
    proof -
      from that month_of_yday_range [of l yd] have "month_of_yday l yd = 0" by simp
      then show ?thesis using pos by (simp add: month_start_def)
    qed
    from l show ?thesis
    proof
      assume l0: "l = 0"
      then have "\<not> leap_year y" using ly by simp
      then show ?thesis
        using yday_step0 [OF pos] r(2) l0 month_of_yday_range [of 0 yd] j
        by (simp add: c c' days_in_month_def)
    next
      assume l1: "l = 1"
      then have "leap_year y" using ly by simp
      then show ?thesis
        using yday_step1 [OF pos] r(2) l1 month_of_yday_range [of 1 yd] j
        by (simp add: c c' days_in_month_def)
    qed
  qed
qed

lemma String_split_first:
  "c \<notin> set xs \<Longrightarrow> String_split c (xs @ c # ys) = xs # String_split c ys"
  by (induction xs) auto

lemma iso_date_format: "iso_date t = format_date (civil_date t)"
  by (simp add: iso_date_def format_date_def civil_date_def)

lemma getMapUrl_date_eq:
  "getMapUrl_date h now =
     (case TimeClip (UTC h (LocalTime h now - msPerDay)) of
        None \<Rightarrow> Inl RangeError_invalid_time
      | Some t \<Rightarrow> Inr (iso_date t))"
proof (cases "TimeClip (UTC h (LocalTime h now - msPerDay))")
  case None
  then show ?thesis by (simp add: getMapUrl_date_def setDate_yesterday toISOString_def)
next
  case (Some t)
  have T: "CHR ''T'' \<notin> set (iso_date t)"
    using set_iso_date [of "CHR ''T''" t] by (auto simp add: date_chars_def)
  have "String_split CHR ''T'' (iso_date t @ ''T'' @ iso_time t @ ''Z'')
          = iso_date t # String_split CHR ''T'' (iso_time t @ ''Z'')"
    using String_split_first [OF T] by simp
  with Some show ?thesis by (simp add: getMapUrl_date_def setDate_yesterday toISOString_def)
qed

lemma getMapUrl_date_fixed_offset:
  assumes "\<And>t u. LocalTZA h t u = off" and "valid_time (now - msPerDay)"
  shows "getMapUrl_date h now = Inr (format_date (day_before (civil_date now)))"
proof -
  have "UTC h (LocalTime h now - msPerDay) = now - msPerDay"
    by (simp add: UTC_def LocalTime_def assms(1))
  then show ?thesis
    using assms(2)
    by (simp add: getMapUrl_date_eq TimeClip_def valid_time_def iso_date_format
          civil_date_yesterday)
qed


text \<open>
  C1, on a host whose clocks change. In New York, at 2024-03-10T23:30:00Z (19:30 local
  time on the day the clocks went forward), the local date is set back to the 9th, 19:30
  standard time, which is 2024-03-10T00:30:00Z: the URL carries \<open>TIME=2024-03-10\<close>, the
  date of the run in UTC itself and not the day before it, \<open>2024-03-09\<close>. (On a host with
  a fixed offset the date is the day before: \<open>getMapUrl_date_fixed_offset\<close>.)
\<close>

theorem getMapUrl_date_across_clock_change:
  "getMapUrl host_new_york_2024 1710113400000
     = Inr (MAP_URL_prefix @ ''2024-03-10'' @ MAP_URL_suffix)
   \<and> civil_date 1710113400000 = (2024, 3, 10)
   \<and> format_date (day_before (civil_date 1710113400000)) = ''2024-03-09''"
proof -
  have u: "UTC host_new_york_2024 (LocalTime host_new_york_2024 1710113400000 - msPerDay)
             = 1710030600000"
    by (simp add: UTC_def LocalTime_def host_new_york_2024_def msPerDay_def)
  have a: "YearFromTime 1710030600000 = 2024 \<and> MonthFromTime 1710030600000 = 2
      \<and> DateFromTime 1710030600000 = 10 \<and> iso_date 1710030600000 = ''2024-03-10''"
  proof -
    have "Day 1710030600000 = 19792" by (simp add: Day_def msPerDay_def)
    moreover have "DayFromYear 2024 = 19723" "DayFromYear (2024 + 1) = 20089"
      by (simp_all add: DayFromYear_def)
    moreover have "DaysInYear 2024 = 365 + 1" by (simp add: DaysInYear_def)
    moreover have "month_of_yday 1 (19792 - 19723) = 2" by (simp add: month_of_yday_def)
    moreover have "month_start 1 2 = 60" by (simp add: month_start_def)
    ultimately show ?thesis
      using iso_date_civil [of 1710030600000 19792 2024 19723 20089 1 2 60]
      by (simp add: iso_year_def digit_defs)
  qed
  have b: "YearFromTime 1710113400000 = 2024 \<and> MonthFromTime 1710113400000 = 2
      \<and> DateFromTime 1710113400000 = 10 \<and> iso_date 1710113400000 = ''2024-03-10''"
  proof -
    have "Day 1710113400000 = 19792" by (simp add: Day_def msPerDay_def)
    moreover have "DayFromYear 2024 = 19723" "DayFromYear (2024 + 1) = 20089"
      by (simp_all add: DayFromYear_def)
    moreover have "DaysInYear 2024 = 365 + 1" by (simp add: DaysInYear_def)
    moreover have "month_of_yday 1 (19792 - 19723) = 2" by (simp add: month_of_yday_def)
    moreover have "month_start 1 2 = 60" by (simp add: month_start_def)
    ultimately show ?thesis
      using iso_date_civil [of 1710113400000 19792 2024 19723 20089 1 2 60]
      by (simp add: iso_year_def digit_defs)
  qed
  have c: "civil_date 1710113400000 = (2024, 3, 10)" using b by (simp add: civil_date_def)
  have "getMapUrl_date host_new_york_2024 1710113400000 = Inr ''2024-03-10''"
    using a by (simp add: getMapUrl_date_eq u TimeClip_def)
  then show ?thesis
    by (simp add: getMapUrl_def c format_date_def iso_year_def digit_defs)
qed


section \<open>The query of the imagery URL\<close>

lemma percent_decode_id: "CHR ''%'' \<notin> set s \<Longrightarrow> percent_decode s = s"
  by (induction s rule: percent_decode.induct) auto

lemma has_scheme_MAP_URL: "has_scheme (MAP_URL_prefix @ d @ MAP_URL_suffix)"
  by (simp add: has_scheme_def MAP_URL_prefix_def is_alpha_def is_scheme_char_def is_digit_def)

lemma takeWhile_all: "c \<notin> set xs \<Longrightarrow> takeWhile (\<lambda>x. x \<noteq> c) xs = xs"
  by (induction xs) auto

lemma MAP_URL_prefix_parts:
  "MAP_URL_prefix = ''https://gibs.earthdata.nasa.gov/wms/epsg4326/best/wms.cgi?'' @ MAP_URL_query_head"
  by (simp add: MAP_URL_prefix_def MAP_URL_query_head_def)

lemma URL_query_MAP_URL:
  assumes "CHR ''#'' \<notin> set d"
  shows "URL_query (MAP_URL_prefix @ d @ MAP_URL_suffix)
           = Some (MAP_URL_query_head @ d @ MAP_URL_suffix)"
proof -
  have "CHR ''#'' \<notin> set (MAP_URL_prefix @ d @ MAP_URL_suffix)"
    using assms by (simp add: MAP_URL_prefix_def MAP_URL_suffix_def)
  then have "takeWhile (\<lambda>c. c \<noteq> CHR ''#'') (MAP_URL_prefix @ d @ MAP_URL_suffix)
               = MAP_URL_prefix @ d @ MAP_URL_suffix"
    by (rule takeWhile_all)
  then show ?thesis
    by (simp add: URL_query_def has_scheme_MAP_URL) (simp add: MAP_URL_prefix_parts)
qed

lemma String_split_none: "c \<notin> set xs \<Longrightarrow> String_split c xs = [xs]"
  by (induction xs) auto

lemma query_pieces:
  assumes "CHR ''&'' \<notin> set d"
  shows "String_split CHR ''&'' (MAP_URL_query_head @ d @ MAP_URL_suffix)
     = [''SERVICE=WMS'', ''REQUEST=GetMap'', ''VERSION=1.3.0'',
        ''LAYERS=MODIS_Terra_CorrectedReflectance_TrueColor'', ''CRS=EPSG:4326'', ''STYLES='',
        ''FORMAT=image/jpeg'', ''TIME='' @ d, ''BBOX=-180,-90,180,90'', ''WIDTH=4096'',
        ''HEIGHT=2048'']"
proof -
  have t: "CHR ''&'' \<notin> set (''TIME='' @ d)" using assms by simp
  have s0: "String_split CHR ''&'' (''SERVICE=WMS&REQUEST=GetMap&VERSION=1.3.0&LAYERS=MODIS_Terra_CorrectedReflectance_TrueColor&CRS=EPSG:4326&STYLES=&FORMAT=image/jpeg&TIME='' @ d @ MAP_URL_suffix)
      = ''SERVICE=WMS'' # String_split CHR ''&'' (''REQUEST=GetMap&VERSION=1.3.0&LAYERS=MODIS_Terra_CorrectedReflectance_TrueColor&CRS=EPSG:4326&STYLES=&FORMAT=image/jpeg&TIME='' @ d @ MAP_URL_suffix)"
    using String_split_first [of "CHR ''&''" "''SERVICE=WMS''" "''REQUEST=GetMap&VERSION=1.3.0&LAYERS=MODIS_Terra_CorrectedReflectance_TrueColor&CRS=EPSG:4326&STYLES=&FORMAT=image/jpeg&TIME='' @ d @ MAP_URL_suffix"]
    by (simp del: String_split.simps)
  have s1: "String_split CHR ''&'' (''REQUEST=GetMap&VERSION=1.3.0&LAYERS=MODIS_Terra_CorrectedReflectance_TrueColor&CRS=EPSG:4326&STYLES=&FORMAT=image/jpeg&TIME='' @ d @ MAP_URL_suffix)
      = ''REQUEST=GetMap'' # String_split CHR ''&'' (''VERSION=1.3.0&LAYERS=MODIS_Terra_CorrectedReflectance_TrueColor&CRS=EPSG:4326&STYLES=&FORMAT=image/jpeg&TIME='' @ d @ MAP_URL_suffix)"
    using String_split_first [of "CHR ''&''" "''REQUEST=GetMap''" "''VERSION=1.3.0&LAYERS=MODIS_Terra_CorrectedReflectance_TrueColor&CRS=EPSG:4326&STYLES=&FORMAT=image/jpeg&TIME='' @ d @ MAP_URL_suffix"]
    by (simp del: String_split.simps)
  have s2: "String_split CHR ''&'' (''VERSION=1.3.0&LAYERS=MODIS_Terra_CorrectedReflectance_TrueColor&CRS=EPSG:4326&STYLES=&FORMAT=image/jpeg&TIME='' @ d @ MAP_URL_suffix)
      = ''VERSION=1.3.0'' # String_split CHR ''&'' (''LAYERS=MODIS_Terra_CorrectedReflectance_TrueColor&CRS=EPSG:4326&STYLES=&FORMAT=image/jpeg&TIME='' @ d @ MAP_URL_suffix)"
    using String_split_first [of "CHR ''&''" "''VERSION=1.3.0''" "''LAYERS=MODIS_Terra_CorrectedReflectance_TrueColor&CRS=EPSG:4326&STYLES=&FORMAT=image/jpeg&TIME='' @ d @ MAP_URL_suffix"]
    by (simp del: String_split.simps)
  have s3: "String_split CHR ''&'' (''LAYERS=MODIS_Terra_CorrectedReflectance_TrueColor&CRS=EPSG:4326&STYLES=&FORMAT=image/jpeg&TIME='' @ d @ MAP_URL_suffix)
      = ''LAYERS=MODIS_Terra_CorrectedReflectance_TrueColor'' # String_split CHR ''&'' (''CRS=EPSG:4326&STYLES=&FORMAT=image/jpeg&TIME='' @ d @ MAP_URL_suffix)"
    using String_split_first [of "CHR ''&''" "''LAYERS=MODIS_Terra_CorrectedReflectance_TrueColor''" "''CRS=EPSG:4326&STYLES=&FORMAT=image/jpeg&TIME='' @ d @ MAP_URL_suffix"]
    by (simp del: String_split.simps)
  have s4: "String_split CHR ''&'' (''CRS=EPSG:4326&STYLES=&FORMAT=image/jpeg&TIME='' @ d @ MAP_URL_suffix)
      = ''CRS=EPSG:4326'' # String_split CHR ''&'' (''STYLES=&FORMAT=image/jpeg&TIME='' @ d @ MAP_URL_suffix)"
    using String_split_first [of "CHR ''&''" "''CRS=EPSG:4326''" "''STYLES=&FORMAT=image/jpeg&TIME='' @ d @ MAP_URL_suffix"]
    by (simp del: String_split.simps)
  have s5: "String_split CHR ''&'' (''STYLES=&FORMAT=image/jpeg&TIME='' @ d @ MAP_URL_suffix)
      = ''STYLES='' # String_split CHR ''&'' (''FORMAT=image/jpeg&TIME='' @ d @ MAP_URL_suffix)"
    using String_split_first [of "CHR ''&''" "''STYLES=''" "''FORMAT=image/jpeg&TIME='' @ d @ MAP_URL_suffix"]
    by (simp del: String_split.simps)
  have s6: "String_split CHR ''&'' (''FORMAT=image/jpeg&TIME='' @ d @ MAP_URL_suffix)
      = ''FORMAT=image/jpeg'' # String_split CHR ''&'' (''TIME='' @ d @ MAP_URL_suffix)"
    using String_split_first [of "CHR ''&''" "''FORMAT=image/jpeg''" "''TIME='' @ d @ MAP_URL_suffix"]
    by (simp del: String_split.simps)
  have s7: "String_split CHR ''&'' (''TIME='' @ d @ MAP_URL_suffix)
      = (''TIME='' @ d) # String_split CHR ''&'' ''BBOX=-180,-90,180,90&WIDTH=4096&HEIGHT=2048''"
    using String_split_first [OF t, of "''BBOX=-180,-90,180,90&WIDTH=4096&HEIGHT=2048''"]
    by (simp add: MAP_URL_suffix_def del: String_split.simps)
  have s8: "String_split CHR ''&'' ''BBOX=-180,-90,180,90&WIDTH=4096&HEIGHT=2048''
      = [''BBOX=-180,-90,180,90'', ''WIDTH=4096'', ''HEIGHT=2048'']"
    by simp
  have h: "MAP_URL_query_head @ d @ MAP_URL_suffix = ''SERVICE=WMS&REQUEST=GetMap&VERSION=1.3.0&LAYERS=MODIS_Terra_CorrectedReflectance_TrueColor&CRS=EPSG:4326&STYLES=&FORMAT=image/jpeg&TIME='' @ d @ MAP_URL_suffix"
    by (simp add: MAP_URL_query_head_def)
  show ?thesis
    unfolding h by (simp only: s0 s1 s2 s3 s4 s5 s6 s7 s8)
qed

lemma TIME_of_MAP_URL:
  assumes "CHR ''#'' \<notin> set d" "CHR ''&'' \<notin> set d"
  shows "URL_searchParams_get (MAP_URL_prefix @ d @ MAP_URL_suffix) ''TIME''
           = Some (Some (form_decode d))"
proof -
  have "map_of (query_pairs (MAP_URL_query_head @ d @ MAP_URL_suffix)) ''TIME''
          = Some (form_decode d)"
    unfolding query_pairs_def query_pieces [OF assms(2)]
    by (simp add: form_decode_def)
  then show ?thesis
    by (simp add: URL_searchParams_get_def URL_query_MAP_URL [OF assms(1)])
qed

lemma getMapUrl_Inr:
  "getMapUrl h now = Inr url \<Longrightarrow> \<exists>t. url = MAP_URL_prefix @ iso_date t @ MAP_URL_suffix"
  by (auto simp add: getMapUrl_def getMapUrl_date_eq split: option.splits sum.splits)

lemma iso_date_chars:
  "CHR ''#'' \<notin> set (iso_date t)" "CHR ''&'' \<notin> set (iso_date t)" "CHR ''%'' \<notin> set (iso_date t)"
  using set_iso_date [of "CHR ''#''" t] set_iso_date [of "CHR ''&''" t]
    set_iso_date [of "CHR ''%''" t]
  by (auto simp add: date_chars_def)

lemma form_decode_iso_date: "form_decode (iso_date t) = plus_to_space (iso_date t)"
proof -
  have "CHR ''%'' \<notin> set (plus_to_space (iso_date t))"
    using iso_date_chars(3) [of t] by (auto simp add: plus_to_space_def)
  then show ?thesis
    by (simp add: form_decode_def percent_decode_id flip: plus_to_space_def)
qed

lemma mapTime_of_MAP_URL:
  "URL_searchParams_get (MAP_URL_prefix @ iso_date t @ MAP_URL_suffix) ''TIME''
     = Some (Some (plus_to_space (iso_date t)))"
  by (simp add: TIME_of_MAP_URL iso_date_chars form_decode_iso_date)

lemma createPostMessage_Inr:
  assumes "createPostMessage h url now now' v = Inr msg"
  shows "\<exists>fl utc b. msg = JStr (template fl utc b (imageNote_of (mapTime_of url)))"
proof -
  from assms obtain t utc b where
    "msg = select_message (weekday_name (WeekDay t)) utc b (imageNote_of (mapTime_of url))"
    unfolding createPostMessage_def and_then_def Let_def format_weekday_def
    by (auto split: sum.splits option.splits)
  moreover obtain fl where
    "select_message (weekday_name (WeekDay t)) utc b (imageNote_of (mapTime_of url))
       = JStr (template fl utc b (imageNote_of (mapTime_of url)))"
    using select_message_template by blast
  ultimately show ?thesis by blast
qed

lemma template_suffix:
  "suffix (n @ '' (ISS = International Space Station) #ISS #Space #NASA'') (template fl utc b n)"
  by (simp add: template_def suffix_def)


lemma postToFacebook_events:
  "list_all (\<lambda>e. case e of
               HttpGet u t \<Rightarrow> False
             | HttpPost u form name bytes \<Rightarrow> map_of form ''message'' = Some message
             | _ \<Rightarrow> True)
     (snd (postToFacebook w imagePath message []))"
  by (simp add: postToFacebook_def action_defs Let_def split: sum.splits reply.splits)

section \<open>The events of a run\<close>

lemma postToFacebook_eq:
  "postToFacebook w imagePath message tr
     = (publish_outcome w imagePath message, tr @ publish_events w imagePath message)"
  by (simp add: publish_outcome_def publish_events_def postToFacebook_def action_defs Let_def
        split: sum.splits reply.splits)

lemma main_trace:
  "snd (main w url []) =
     [ConsoleLog (JStr ''Fetching ISS data...''), HttpGet ISS_API_URL 5000] @
     (case telemetry_outcome w of
        Inl e \<Rightarrow> [ConsoleError e, ProcessExit 1]
      | Inr v \<Rightarrow>
          ConsoleLog (JStr ''Downloading map image...'') # download_events w url @
          (case download_outcome w url of
             Inl e \<Rightarrow> [ConsoleError e, ProcessExit 1]
           | Inr imagePath \<Rightarrow>
               ConsoleLog (JStr ''Creating post message...'') #
               (case createPostMessage (host_of w) url (clock_message w) (clock_weekday w) v of
                  Inl e \<Rightarrow> [ConsoleError e, ProcessExit 1]
                | Inr message \<Rightarrow>
                    [ConsoleLog (JStr ''Posting to Facebook...''), ConsoleLog message] @
                    publish_events w imagePath message @
                    (case publish_outcome w imagePath message of
                       Inl e \<Rightarrow> [ConsoleError e, ProcessExit 1]
                     | Inr u \<Rightarrow> []))))"
  by (simp add: main_def action_defs fetchISSData_eq fetchMapImage_eq postToFacebook_eq
        split: sum.splits)

lemma download_events_from: "list_all (download_from url) (download_events w url)"
  using download_events_cases [of w url] by auto

lemma publish_events_message:
  "list_all (\<lambda>e. case e of
               HttpGet u t \<Rightarrow> False
             | HttpPost u form name bytes \<Rightarrow> map_of form ''message'' = Some message
             | _ \<Rightarrow> True)
     (publish_events w imagePath message)"
  unfolding publish_events_def by (rule postToFacebook_events)

lemma list_all_mono: "list_all P xs \<Longrightarrow> (\<And>x. P x \<Longrightarrow> Q x) \<Longrightarrow> list_all Q xs"
  by (auto simp add: list_all_iff)

lemma publish_events_from: "list_all (download_from url) (publish_events w imagePath message)"
proof (rule list_all_mono [OF publish_events_message [of message w imagePath]])
  fix e
  assume "case e of HttpGet u t \<Rightarrow> False
          | HttpPost u form name bytes \<Rightarrow> map_of form ''message'' = Some message
          | _ \<Rightarrow> True"
  then show "download_from url e" by (cases e) simp_all
qed

lemma download_events_cite: "list_all (post_cites d) (download_events w url)"
  using download_events_cases [of w url] by auto

lemma publish_events_cite:
  assumes "createPostMessage h url now now' v = Inr message" "mapTime_of url = d"
  shows "list_all (post_cites d) (publish_events w imagePath message)"
proof -
  obtain fl utc b where m: "message = JStr (template fl utc b (imageNote_of d))"
    using createPostMessage_Inr [OF assms(1)] assms(2) by auto
  have s: "suffix (''View: NASA GIBS MODIS Terra True Color (TIME='' @ d @ '')''
                    @ '' (ISS = International Space Station) #ISS #Space #NASA'')
             (template fl utc b (imageNote_of d))"
    using template_suffix [of "imageNote_of d" fl utc b] by (simp add: imageNote_of_def)
  show ?thesis
  proof (rule list_all_mono [OF publish_events_message [of message w imagePath]])
    fix e
    assume "case e of HttpGet u t \<Rightarrow> False
            | HttpPost u form name bytes \<Rightarrow> map_of form ''message'' = Some message
            | _ \<Rightarrow> True"
    then show "post_cites d e" using s m by (cases e) simp_all
  qed
qed

lemma main_downloads_from: "list_all (download_from url) (snd (main w url []))"
  by (simp add: main_trace download_events_from publish_events_from ISS_API_URL_def
        split: sum.splits)

lemma main_cites:
  "mapTime_of url = d \<Longrightarrow> list_all (post_cites d) (snd (main w url []))"
  by (simp add: main_trace download_events_cite publish_events_cite split: sum.splits)


text \<open>
  C10. In a run whose \<open>MAP_URL\<close> is \<open>url\<close>, the URL is the fixed text around a date
  \<open>d0\<close>, its parameter \<open>TIME\<close> is \<open>d0\<close> (a \<open>+\<close> read as a space), every request other than
  the telemetry request goes to \<open>url\<close>, and the message of every upload cites that
  parameter in its note on the image.
\<close>

theorem citation_matches_download:
  "getMapUrl (host_of w) (clock_start w) = Inr url \<longrightarrow>
     (\<exists>d0. url = MAP_URL_prefix @ d0 @ MAP_URL_suffix
        \<and> URL_searchParams_get url ''TIME'' = Some (Some (plus_to_space d0))
        \<and> list_all (download_from url) (run w)
        \<and> list_all (post_cites (plus_to_space d0)) (run w))"
proof
  assume u: "getMapUrl (host_of w) (clock_start w) = Inr url"
  then obtain t where t: "url = MAP_URL_prefix @ iso_date t @ MAP_URL_suffix"
    using getMapUrl_Inr by blast
  have p: "URL_searchParams_get url ''TIME'' = Some (Some (plus_to_space (iso_date t)))"
    unfolding t by (rule mapTime_of_MAP_URL)
  then have m: "mapTime_of url = plus_to_space (iso_date t)" by (simp add: mapTime_of_def)
  have r: "run w = snd (main w url [])" using u by (simp add: run_def)
  show "\<exists>d0. url = MAP_URL_prefix @ d0 @ MAP_URL_suffix
        \<and> URL_searchParams_get url ''TIME'' = Some (Some (plus_to_space d0))
        \<and> list_all (download_from url) (run w)
        \<and> list_all (post_cites (plus_to_space d0)) (run w)"
    using t p main_downloads_from [of url w] main_cites [OF m, of w] unfolding r by blast
qed

theorem citation_matches_download_witness:
  "getMapUrl (host_of example_world) (clock_start example_world)
     = Inr (MAP_URL_prefix @ ''2024-06-14'' @ MAP_URL_suffix)
   \<and> URL_searchParams_get (MAP_URL_prefix @ ''2024-06-14'' @ MAP_URL_suffix) ''TIME''
       = Some (Some ''2024-06-14'')
   \<and> list_all (download_from (MAP_URL_prefix @ ''2024-06-14'' @ MAP_URL_suffix))
         (run example_world)
   \<and> list_all (post_cites ''2024-06-14'') (run example_world)"
proof -
  have u: "UTC host_utc (LocalTime host_utc 1718452800000 - msPerDay) = 1718366400000"
    by (simp add: UTC_def LocalTime_def host_utc_def msPerDay_def)
  have a: "YearFromTime 1718366400000 = 2024 \<and> MonthFromTime 1718366400000 = 5
      \<and> DateFromTime 1718366400000 = 14 \<and> iso_date 1718366400000 = ''2024-06-14''"
  proof -
    have "Day 1718366400000 = 19888" by (simp add: Day_def msPerDay_def)
    moreover have "DayFromYear 2024 = 19723" "DayFromYear (2024 + 1) = 20089"
      by (simp_all add: DayFromYear_def)
    moreover have "DaysInYear 2024 = 365 + 1" by (simp add: DaysInYear_def)
    moreover have "month_of_yday 1 (19888 - 19723) = 5" by (simp add: month_of_yday_def)
    moreover have "month_start 1 5 = 152" by (simp add: month_start_def)
    ultimately show ?thesis
      using iso_date_civil [of 1718366400000 19888 2024 19723 20089 1 5 152]
      by (simp add: iso_year_def digit_defs)
  qed
  have g: "getMapUrl (host_of example_world) (clock_start example_world)
     = Inr (MAP_URL_prefix @ ''2024-06-14'' @ MAP_URL_suffix)"
    using a by (simp add: getMapUrl_def getMapUrl_date_eq example_world_def u TimeClip_def)
  obtain d0 where d: "MAP_URL_prefix @ ''2024-06-14'' @ MAP_URL_suffix
        = MAP_URL_prefix @ d0 @ MAP_URL_suffix"
    and r: "URL_searchParams_get (MAP_URL_prefix @ ''2024-06-14'' @ MAP_URL_suffix) ''TIME''
        = Some (Some (plus_to_space d0))"
       "list_all (download_from (MAP_URL_prefix @ ''2024-06-14'' @ MAP_URL_suffix))
          (run example_world)"
       "list_all (post_cites (plus_to_space d0)) (run example_world)"
    using citation_matches_download [of example_world
        "MAP_URL_prefix @ ''2024-06-14'' @ MAP_URL_suffix"] g
    by blast
  from d have "d0 = ''2024-06-14''" by simp
  then have "plus_to_space d0 = ''2024-06-14''" by (simp add: plus_to_space_def)
  with g r show ?thesis by simp
qed


end
